theory Spec2Isabelle
  imports Main "HOL-Library.Sublist" "HOL-Library.List_Lexorder" "HOL-Library.Monad_Syntax"
    "HOL-Library.Code_Target_Nat"
begin

section \<open>JavaScript strings\<close>

text \<open>
  A JavaScript string is the list of its UTF-16 code units, as numbers: this is what
  \<open>includes\<close>, \<open>split\<close>, \<open>startsWith\<close>, \<open>replace\<close>, \<open>slice\<close>, \<open>trim\<close> and the default
  \<open>sort\<close> work on. \<open>js\<close> turns an ASCII literal into such a string.
\<close>

type_synonym jsstring = "nat list"

definition js :: "string \<Rightarrow> jsstring" where
  "js s = map of_char s"

definition nl :: nat where
  "nl = 10"

text \<open>\<open>s.startsWith(p)\<close> is \<^term>\<open>prefix p s\<close>; \<open>s.includes(p)\<close> looks for \<open>p\<close> at every
  position of \<open>s\<close>, the end included.\<close>

fun includesStr :: "jsstring \<Rightarrow> jsstring \<Rightarrow> bool" where
  "includesStr [] p = (p = [])"
| "includesStr (c # cs) p = (prefix p (c # cs) \<or> includesStr cs p)"

text \<open>
  White space and line terminators of ECMAScript, which \<open>trim\<close> removes at both ends and
  the class \<open>\s\<close> of a regular expression matches: TAB, LF, VT, FF, CR, SPACE, U+00A0,
  U+1680, U+2000 to U+200A, U+2028, U+2029, U+202F, U+205F, U+3000 and U+FEFF.
\<close>

definition isSpace :: "nat \<Rightarrow> bool" where
  "isSpace u =
     ((9 \<le> u \<and> u \<le> 13) \<or> u = 32 \<or> u = 0xA0 \<or> u = 0x1680 \<or> (0x2000 \<le> u \<and> u \<le> 0x200A)
      \<or> u = 0x2028 \<or> u = 0x2029 \<or> u = 0x202F \<or> u = 0x205F \<or> u = 0x3000 \<or> u = 0xFEFF)"

definition trim :: "jsstring \<Rightarrow> jsstring" where
  "trim s = rev (dropWhile isSpace (rev (dropWhile isSpace s)))"

text \<open>
  \<open>s.split(sep)\<close> for a separator that is not empty (the program has no other): the
  pieces between the occurrences of \<open>sep\<close>, found from the left and not overlapping. The
  result is never empty.
\<close>

function splitStr :: "jsstring \<Rightarrow> jsstring \<Rightarrow> jsstring list" where
  "splitStr sep [] = [[]]"
| "splitStr sep (c # cs) =
     (if sep \<noteq> [] \<and> prefix sep (c # cs) then [] # splitStr sep (drop (length sep) (c # cs))
      else (case splitStr sep cs of [] \<Rightarrow> [[c]] | p # ps \<Rightarrow> (c # p) # ps))"
  by pat_completeness auto
termination
  by (relation "measure (\<lambda>(sep, s). length s)") auto

text \<open>\<open>s.replace(pat, rep)\<close> with a string pattern replaces the first occurrence only.\<close>

fun replaceFirst :: "jsstring \<Rightarrow> jsstring \<Rightarrow> jsstring \<Rightarrow> jsstring" where
  "replaceFirst pat rep [] = (if pat = [] then rep else [])"
| "replaceFirst pat rep (c # cs) =
     (if prefix pat (c # cs) then rep @ drop (length pat) (c # cs)
      else c # replaceFirst pat rep cs)"

text \<open>\<open>xs.join(sep)\<close>.\<close>

fun joinStr :: "jsstring \<Rightarrow> jsstring list \<Rightarrow> jsstring" where
  "joinStr sep [] = []"
| "joinStr sep [x] = x"
| "joinStr sep (x # y # ys) = x @ sep @ joinStr sep (y # ys)"

text \<open>\<open>xs[i]\<close>, which is \<open>undefined\<close> out of range.\<close>

definition nth_opt :: "'a list \<Rightarrow> nat \<Rightarrow> 'a option" where
  "nth_opt xs i = (if i < length xs then Some (xs ! i) else None)"

text \<open>A count in a template literal.\<close>

fun showNat :: "nat \<Rightarrow> jsstring" where
  "showNat n = (if n < 10 then [48 + n] else showNat (n div 10) @ [48 + n mod 10])"

declare showNat.simps [simp del]

definition isDigit :: "nat \<Rightarrow> bool" where
  "isDigit u = (48 \<le> u \<and> u \<le> 57)"

text \<open>
  \<open>s.toUpperCase()\<close>. On a string of ASCII characters, dotless i (U+0131) and long s
  (U+017F) it works unit by unit: the letters a to z, and these two, become A to Z, I and S.
  On any other string it is the Unicode mapping of the engine, a parameter.
\<close>

definition plainCase :: "nat \<Rightarrow> bool" where
  "plainCase u = (u < 128 \<or> u = 0x131 \<or> u = 0x17F)"

definition upperUnit :: "nat \<Rightarrow> nat" where
  "upperUnit u =
     (if 97 \<le> u \<and> u \<le> 122 then u - 32 else if u = 0x131 then 73 else if u = 0x17F then 83 else u)"

definition toUpperCase :: "(jsstring \<Rightarrow> jsstring) \<Rightarrow> jsstring \<Rightarrow> jsstring" where
  "toUpperCase unicodeUpper s = (if list_all plainCase s then map upperUnit s else unicodeUpper s)"

text \<open>
  \<open>encodeURIComponent\<close>: letters, digits and \<open>- _ . ! ~ * ' ( )\<close> stay; every other
  character becomes the \<open>%XX\<close> of its UTF-8 bytes, a surrogate pair being one character;
  a surrogate without its partner raises \<open>URIError\<close>, which is \<open>None\<close> here.
\<close>

definition isUnreserved :: "nat \<Rightarrow> bool" where
  "isUnreserved u =
     (isDigit u \<or> (97 \<le> u \<and> u \<le> 122) \<or> (65 \<le> u \<and> u \<le> 90) \<or> u \<in> set (js ''-_.!~*()'')
      \<or> u = 0x27)"

definition hexDigit :: "nat \<Rightarrow> nat" where
  "hexDigit d = (if d < 10 then 48 + d else 55 + d)"

definition percent :: "nat \<Rightarrow> jsstring" where
  "percent b = [37, hexDigit (b div 16), hexDigit (b mod 16)]"

definition isHighSurrogate :: "nat \<Rightarrow> bool" where
  "isHighSurrogate u = (0xD800 \<le> u \<and> u \<le> 0xDBFF)"

definition isLowSurrogate :: "nat \<Rightarrow> bool" where
  "isLowSurrogate u = (0xDC00 \<le> u \<and> u \<le> 0xDFFF)"

definition encodeUnit :: "nat \<Rightarrow> jsstring option" where
  "encodeUnit u =
     (if isUnreserved u then Some [u]
      else if u < 0x80 then Some (percent u)
      else if u < 0x800 then Some (percent (0xC0 + u div 64) @ percent (0x80 + u mod 64))
      else if isHighSurrogate u \<or> isLowSurrogate u then None
      else Some (percent (0xE0 + u div 4096) @ percent (0x80 + (u div 64) mod 64)
                 @ percent (0x80 + u mod 64)))"

definition encodePair :: "nat \<Rightarrow> nat \<Rightarrow> jsstring" where
  "encodePair hi lo =
     (let cp = 0x10000 + (hi - 0xD800) * 1024 + (lo - 0xDC00)
      in percent (0xF0 + cp div 262144) @ percent (0x80 + (cp div 4096) mod 64)
         @ percent (0x80 + (cp div 64) mod 64) @ percent (0x80 + cp mod 64))"

fun encodeURIComponent :: "jsstring \<Rightarrow> jsstring option" where
  "encodeURIComponent [] = Some []"
| "encodeURIComponent [u] = encodeUnit u"
| "encodeURIComponent (u # v # vs) =
     (if isHighSurrogate u \<and> isLowSurrogate v
      then map_option (\<lambda>rest. encodePair u v @ rest) (encodeURIComponent vs)
      else (case encodeUnit u of
              None \<Rightarrow> None
            | Some x \<Rightarrow> map_option (\<lambda>rest. x @ rest) (encodeURIComponent (v # vs))))"

section \<open>License Classifier\<close>

definition permissiveLicenses :: "jsstring list" where
  "permissiveLicenses =
     map js [''MIT'', ''BSD'', ''Apache'', ''ISC'', ''Unlicense'', ''CC0'', ''WTFPL'', ''Zlib'']"

definition isPermissiveLicense :: "(jsstring \<Rightarrow> jsstring) \<Rightarrow> jsstring \<Rightarrow> bool" where
  "isPermissiveLicense unicodeUpper lic =
     list_ex (\<lambda>pl. includesStr (toUpperCase unicodeUpper lic) (toUpperCase unicodeUpper pl))
       permissiveLicenses"

text \<open>
  The specification's wording, stated on its own: two characters are the same letter up to
  case when they are equal or one is the lower-case form (a to z) of the other (A to Z), and
  a string contains a pattern case-insensitively when some stretch of it agrees with the
  pattern character by character up to case.
\<close>

definition sameLetter :: "nat \<Rightarrow> nat \<Rightarrow> bool" where
  "sameLetter a b =
     (a = b \<or> (97 \<le> a \<and> a \<le> 122 \<and> a = b + 32) \<or> (97 \<le> b \<and> b \<le> 122 \<and> b = a + 32))"

definition containsIgnoringCase :: "jsstring \<Rightarrow> jsstring \<Rightarrow> bool" where
  "containsIgnoringCase s p =
     (\<exists>pre mid suf. s = pre @ mid @ suf \<and> list_all2 sameLetter mid p)"

section \<open>Report Formatter\<close>

text \<open>The warning glyph, U+26A0 U+FE0F.\<close>

definition glyph :: jsstring where
  "glyph = [0x26A0, 0xFE0F]"

definition warningNoteText :: jsstring where
  "warningNoteText =
     [nl, nl] @ js ''**Note:** This license may not be permissive. Please review before use.''"

text \<open>The template of an entry, for the text that stands as the description.\<close>

definition entryText ::
  "jsstring \<Rightarrow> jsstring \<Rightarrow> jsstring \<Rightarrow> jsstring \<Rightarrow> bool \<Rightarrow> jsstring \<Rightarrow> jsstring" where
  "entryText dep npm lic descrText permissive updated =
     (let warningMark = (if permissive then [] else glyph @ js '' '');
          warningNote = (if permissive then [] else warningNoteText)
      in js ''### '' @ warningMark @ dep @ [nl, nl]
         @ descrText @ [nl, nl]
         @ js ''- **NPM:** ['' @ npm @ js '']('' @ npm @ js '')'' @ [nl]
         @ js ''- **License:** ['' @ lic @ js '']('' @ lic @ js '')'' @ [nl]
         @ js ''- *Cache:* '' @ updated @ warningNote @ [nl, nl]
         @ js ''---'')"

text \<open>\<open>formatDependencyInfo\<close> on strings: an empty description is falsy and gives the
  placeholder.\<close>

definition formatDependencyInfo ::
  "jsstring \<Rightarrow> jsstring \<Rightarrow> jsstring \<Rightarrow> jsstring \<Rightarrow> bool \<Rightarrow> jsstring \<Rightarrow> jsstring" where
  "formatDependencyInfo dep npm lic descr permissive updated =
     entryText dep npm lic (if descr = [] then js ''No description available.'' else descr)
       permissive updated"

definition header :: "jsstring \<Rightarrow> nat \<Rightarrow> nat \<Rightarrow> jsstring" where
  "header generated dependenciesCount nonPermissive =
     js ''# Project Dependencies List'' @ [nl, nl]
     @ js ''> Generated on: '' @ generated @ [nl, nl]
     @ js ''## Summary'' @ [nl]
     @ js ''- **Total Dependencies:** '' @ showNat dependenciesCount @ [nl]
     @ js ''- **Non-Permissive Licenses:** '' @ showNat nonPermissive @ [nl, nl]
     @ js ''## Description'' @ [nl]
     @ js ''This document contains a comprehensive list of all dependencies used in this codebase. For each dependency, you'' @ [0x27] @ js ''ll find:'' @ [nl]
     @ js ''- Its intended use'' @ [nl]
     @ js ''- Source link'' @ [nl]
     @ js ''- License information'' @ [nl]
     @ js ''- A link to the license definition'' @ [nl, nl]
     @ js ''## Note'' @ [nl]
     @ glyph @ js '' **Warning:** Dependencies marked with '' @ glyph
     @ js '' have potentially non-permissive licenses. Please review these carefully before use.''
     @ [nl, nl]
     @ js ''---'' @ [nl]"

definition footer :: jsstring where
  "footer = [nl, nl] @ js ''---'' @ [nl, nl] @ js ''End of Dependencies List''"

section \<open>Data\<close>

text \<open>
  The body of a registry answer is whatever JSON the registry sends; the program reads two
  properties of it and checks neither. What matters of \<open>license\<close>: absent or falsy
  (\<open>null\<close>, \<open>false\<close>, \<open>0\<close>, the empty string); a string that is not empty; any other value
  (an object as old packages have, an array, a number, \<open>true\<close>), on which \<open>toUpperCase\<close>
  is not a function. What matters of \<open>description\<close>: absent or falsy; a truthy value with
  the text a template literal writes for it (a string is its own text; an empty array is
  truthy and its text is empty); a truthy value that cannot be converted to a string.
\<close>

datatype license_value = NoLicense | LicenseString jsstring | LicenseOther

datatype description_value = NoDescription | DescriptionValue jsstring | DescriptionUnprintable

record NpmPackageInfo =
  license :: license_value
  pkgDescription :: description_value

text \<open>What \<open>fetchPackageInfo\<close> returns: \<open>null\<close> when the body is the JSON \<open>null\<close>, else a
  value with these two properties (a number, a string or an array as body has neither).\<close>

datatype package_info = NullInfo | Info NpmPackageInfo

record CachedDependencyInfo =
  name :: jsstring
  npmLink :: jsstring
  licenseLink :: jsstring
  description :: jsstring
  isPermissive :: bool
  lastUpdated :: jsstring

text \<open>
  The manifest object: for each of the two properties, the keys and values that the spread
  copies from it. These are the entries of an object (the indices of an array or of a
  string); there are none for a property that is absent, \<open>null\<close>, a number or a boolean.
\<close>

record PackageJson =
  dependencies :: "(jsstring \<times> jsstring) list option"
  devDependencies :: "(jsstring \<times> jsstring) list option"

text \<open>What reading and parsing the manifest gives: \<open>fs.readFile\<close> rejects,
  \<open>JSON.parse\<close> throws, the text is the JSON \<open>null\<close>, or a value with its properties.\<close>

datatype manifest_read = Unreadable | MalformedJson | ManifestNull | Manifest PackageJson

text \<open>What one request to the registry gives: \<open>fetch\<close> rejects, or a response with its
  \<open>ok\<close> flag and its body as \<open>response.json()\<close> reads it.\<close>

datatype response_body = NotJson | JsonNull | JsonValue NpmPackageInfo

datatype fetch_result = NetworkError | Response bool response_body

text \<open>The calls of \<open>console.error\<close>.\<close>

datatype log_entry = ErrorFetching jsstring | ErrorReadingCache | AnErrorOccurred

text \<open>
  The world a run sees. Times are milliseconds since the epoch. The engine and the time
  zone own five functions, which stay parameters: \<open>dateParse\<close> is
  \<open>new Date(s).getTime()\<close> (\<open>None\<close> for NaN); \<open>dateLocal year month day hour\<close> is
  \<open>new Date(parseInt(year), parseInt(month) - 1, parseInt(day), parseInt(hour)).getTime()\<close>
  for four strings of digits; \<open>utcOffset t\<close> is the offset of local time at the time
  \<open>t\<close>, so that the local time is \<open>t + utcOffset t\<close>; \<open>localToUtc w\<close> is the time at
  which the local time is \<open>w\<close>, as the engine chooses it; \<open>unicodeUpper\<close> is
  \<open>toUpperCase\<close> beyond the characters written out above. \<open>localeStamp d\<close> is
  \<open>new Date().toLocaleString()\<close> at the moment the fetch of \<open>d\<close> has returned.
\<close>

record env =
  manifestFile :: manifest_read
  outputFile :: "jsstring option"
  registry :: "jsstring \<Rightarrow> fetch_result"
  writeOk :: bool
  now :: int
  utcOffset :: "int \<Rightarrow> int"
  localToUtc :: "int \<Rightarrow> int"
  dateParse :: "jsstring \<Rightarrow> int option"
  dateLocal :: "jsstring \<Rightarrow> jsstring \<Rightarrow> jsstring \<Rightarrow> jsstring \<Rightarrow> int option"
  localeStamp :: "jsstring \<Rightarrow> jsstring"
  generatedOn :: jsstring
  unicodeUpper :: "jsstring \<Rightarrow> jsstring"

text \<open>What a run has done so far: the requests sent, the errors logged, the counters.\<close>

record run_state =
  requests :: "jsstring list"
  errors :: "log_entry list"
  processedCount :: nat
  nonPermissiveCount :: nat
  cachedCount :: nat
  written :: "jsstring option"

text \<open>What the code can throw: the three failures of the file system and of
  \<open>JSON.parse\<close>, and \<open>Thrown\<close> for a \<open>TypeError\<close> or \<open>URIError\<close> raised by an
  expression of the program.\<close>

datatype js_error = ReadFailed | SyntaxError | WriteFailed | Thrown

section \<open>Registry Client\<close>

definition registryUrl :: "jsstring \<Rightarrow> jsstring" where
  "registryUrl encodedName = js ''https://registry.npmjs.org/'' @ encodedName"

definition emptyInfo :: package_info where
  "emptyInfo = Info \<lparr>license = NoLicense, pkgDescription = NoDescription\<rparr>"

text \<open>Everything is inside the \<open>try\<close>: also the \<open>URIError\<close> of a name that cannot be
  encoded, raised before any request is sent.\<close>

definition fetchPackageInfo :: "env \<Rightarrow> jsstring \<Rightarrow> run_state \<Rightarrow> package_info \<times> run_state" where
  "fetchPackageInfo e packageName st =
     (case encodeURIComponent packageName of
        None \<Rightarrow> (emptyInfo, st\<lparr>errors := errors st @ [ErrorFetching packageName]\<rparr>)
      | Some encodedName \<Rightarrow>
          (let st1 = st\<lparr>requests := requests st @ [registryUrl encodedName]\<rparr>;
               failed = (emptyInfo, st1\<lparr>errors := errors st1 @ [ErrorFetching packageName]\<rparr>)
           in case registry e (registryUrl encodedName) of
                NetworkError \<Rightarrow> failed
              | Response ok body \<Rightarrow>
                  if \<not> ok then failed
                  else (case body of
                          NotJson \<Rightarrow> failed
                        | JsonNull \<Rightarrow> (NullInfo, st1)
                        | JsonValue data \<Rightarrow> (Info data, st1))))"

section \<open>Timestamps\<close>

text \<open>
  One attempt of \<open>/(\d+)\.\s*(\d+)\.\s*(\d+)\s*(\d+)/\<close> at the start of a string. Every
  group is greedy; the only backtracking that can succeed is the third group giving its last
  digit to the fourth when no digits follow it.
\<close>

definition matchHere :: "jsstring \<Rightarrow> (jsstring \<times> jsstring \<times> jsstring \<times> jsstring) option" where
  "matchHere s =
     (let d1 = takeWhile isDigit s; r1 = dropWhile isDigit s in
      if d1 = [] then None
      else case r1 of
        [] \<Rightarrow> None
      | c1 # r1' \<Rightarrow>
          if c1 \<noteq> 46 then None
          else
            let r2 = dropWhile isSpace r1'; d2 = takeWhile isDigit r2; r3 = dropWhile isDigit r2 in
            if d2 = [] then None
            else case r3 of
              [] \<Rightarrow> None
            | c3 # r3' \<Rightarrow>
                if c3 \<noteq> 46 then None
                else
                  let r4 = dropWhile isSpace r3'; d3 = takeWhile isDigit r4;
                      r5 = dropWhile isDigit r4; d4 = takeWhile isDigit (dropWhile isSpace r5)
                  in if d3 = [] then None
                     else if d4 \<noteq> [] then Some (d1, d2, d3, d4)
                     else if 2 \<le> length d3 then Some (d1, d2, butlast d3, [last d3])
                     else None)"

text \<open>\<open>dateString.match(...)\<close>: the leftmost position where an attempt succeeds.\<close>

fun specificFormatMatch :: "jsstring \<Rightarrow> (jsstring \<times> jsstring \<times> jsstring \<times> jsstring) option" where
  "specificFormatMatch [] = matchHere []"
| "specificFormatMatch (c # cs) =
     (case matchHere (c # cs) of Some m \<Rightarrow> Some m | None \<Rightarrow> specificFormatMatch cs)"

definition formats :: "jsstring list" where
  "formats = map js [''MM/DD/YYYY, HH:mm:ss'', ''YYYY-MM-DD HH:mm:ss'', ''MMMM D, YYYY HH:mm:ss'',
                     ''D. M. YYYY HH:mm:ss'']"

text \<open>\<open>parseDate\<close> on a string. (On \<open>undefined\<close> it throws at \<open>dateString.match\<close>: see
  \<open>cacheDecision\<close>.)\<close>

definition parseDate :: "env \<Rightarrow> jsstring \<Rightarrow> int" where
  "parseDate e dateString =
     (case dateParse e dateString of
        Some t \<Rightarrow> t
      | None \<Rightarrow>
          (case (case specificFormatMatch dateString of
                   None \<Rightarrow> None
                 | Some (day, month, year, hour) \<Rightarrow> dateLocal e year month day hour) of
             Some t \<Rightarrow> t
           | None \<Rightarrow>
               (case List.find (\<lambda>format. dateParse e dateString \<noteq> None) formats of
                  Some format \<Rightarrow> the (dateParse e dateString)
                | None \<Rightarrow> 0)))"

section \<open>Cache Reader\<close>

text \<open>
  The cache is a plain object. Assigning to the key \<open>__proto__\<close> sets its prototype and
  adds no property; so the object is its own properties and, if an entry of that name was
  read, the record that is its prototype.
\<close>

record cache =
  own :: "jsstring \<rightharpoonup> CachedDependencyInfo"
  proto :: "CachedDependencyInfo option"

definition emptyCache :: cache where
  "emptyCache = \<lparr>own = Map.empty, proto = None\<rparr>"

definition assignEntry :: "cache \<Rightarrow> CachedDependencyInfo \<Rightarrow> cache" where
  "assignEntry cachedDeps info =
     (if name info = js ''__proto__'' then cachedDeps\<lparr>proto := Some info\<rparr>
      else cachedDeps\<lparr>own := (own cachedDeps)(name info \<mapsto> info)\<rparr>)"

text \<open>The body of the loop over the entries; \<open>None\<close> is the \<open>TypeError\<close> of a method
  called on \<open>undefined\<close>.\<close>

definition epochIso :: jsstring where
  "epochIso = js ''1970-01-01T00:00:00.000Z''"

definition parseEntry :: "jsstring \<Rightarrow> CachedDependencyInfo option" where
  "parseEntry dep =
     (let lines = filter (\<lambda>line. trim line \<noteq> []) (splitStr [nl] dep) in
      do {
        line0 \<leftarrow> nth_opt lines 0;
        line1 \<leftarrow> nth_opt lines 1;
        line2 \<leftarrow> nth_opt lines 2;
        npm \<leftarrow> nth_opt (splitStr (js ''('') line2) 1;
        line3 \<leftarrow> nth_opt lines 3;
        lic \<leftarrow> nth_opt (splitStr (js ''('') line3) 1;
        updated \<leftarrow> (case List.find (prefix (js ''- *Cache:*'')) lines of
                      Some lastUpdatedLine \<Rightarrow>
                        map_option (\<lambda>x. filter (\<lambda>c. c \<noteq> 42) (trim x))
                          (nth_opt (splitStr (js '':'') lastUpdatedLine) 1)
                    | None \<Rightarrow> Some epochIso);
        Some \<lparr>name = replaceFirst (glyph @ js '' '') [] (trim line0),
              npmLink = butlast npm,
              licenseLink = butlast lic,
              description = trim line1,
              isPermissive = (\<not> includesStr line0 glyph),
              lastUpdated = updated\<rparr>
      })"

fun readEntries :: "jsstring list \<Rightarrow> cache \<Rightarrow> cache option" where
  "readEntries [] cachedDeps = Some cachedDeps"
| "readEntries (dep # deps) cachedDeps =
     (case parseEntry dep of
        None \<Rightarrow> None
      | Some info \<Rightarrow> readEntries deps (assignEntry cachedDeps info))"

definition readCachedDependencies :: "jsstring option \<Rightarrow> cache \<times> log_entry list" where
  "readCachedDependencies file =
     (case file of
        None \<Rightarrow> (emptyCache, [ErrorReadingCache])
      | Some content \<Rightarrow>
          (case readEntries (tl (splitStr (js ''### '') content)) emptyCache of
             None \<Rightarrow> (emptyCache, [ErrorReadingCache])
           | Some cachedDeps \<Rightarrow> (cachedDeps, [])))"

section \<open>Fetch/Cache Pipeline\<close>

text \<open>
  \<open>cachedDependencies[dep]\<close>: an own property is a record; else the key \<open>__proto__\<close>
  gives the prototype, a key that is a field name of the prototype record gives that field,
  and a property name of \<open>Object.prototype\<close> gives a function.
\<close>

datatype lookup =
  Undefined | Rec CachedDependencyInfo | StringValue jsstring | BooleanValue bool | Builtin

definition objectPrototypeKeys :: "jsstring list" where
  "objectPrototypeKeys =
     map js [''constructor'', ''__defineGetter__'', ''__defineSetter__'', ''hasOwnProperty'',
             ''__lookupGetter__'', ''__lookupSetter__'', ''isPrototypeOf'',
             ''propertyIsEnumerable'', ''toString'', ''valueOf'', ''__proto__'',
             ''toLocaleString'']"

definition fieldOf :: "CachedDependencyInfo \<Rightarrow> jsstring \<Rightarrow> lookup option" where
  "fieldOf p key =
     (if key = js ''name'' then Some (StringValue (name p))
      else if key = js ''npmLink'' then Some (StringValue (npmLink p))
      else if key = js ''licenseLink'' then Some (StringValue (licenseLink p))
      else if key = js ''description'' then Some (StringValue (description p))
      else if key = js ''isPermissive'' then Some (BooleanValue (isPermissive p))
      else if key = js ''lastUpdated'' then Some (StringValue (lastUpdated p))
      else None)"

definition lookupCached :: "cache \<Rightarrow> jsstring \<Rightarrow> lookup" where
  "lookupCached cachedDependencies dep =
     (case own cachedDependencies dep of
        Some r \<Rightarrow> Rec r
      | None \<Rightarrow>
          if dep = js ''__proto__''
          then (case proto cachedDependencies of Some p \<Rightarrow> Rec p | None \<Rightarrow> Builtin)
          else (case (case proto cachedDependencies of Some p \<Rightarrow> fieldOf p dep | None \<Rightarrow> None) of
                  Some v \<Rightarrow> v
                | None \<Rightarrow> if dep \<in> set objectPrototypeKeys then Builtin else Undefined))"

text \<open>
  \<open>oneWeekAgo.setDate(oneWeekAgo.getDate() - 7)\<close> on the clock: the day of the month is
  read and set in local time, so the result is the time at which the local time is that of
  now, seven days of 24 hours earlier.
\<close>

definition oneWeekAgo :: "env \<Rightarrow> int" where
  "oneWeekAgo e = localToUtc e (now e + utcOffset e (now e) - 604800000)"

definition isCacheValid :: "env \<Rightarrow> CachedDependencyInfo \<Rightarrow> bool" where
  "isCacheValid e cachedInfo = (parseDate e (lastUpdated cachedInfo) > oneWeekAgo e)"

text \<open>
  \<open>cachedInfo && parseDate(cachedInfo.lastUpdated) > oneWeekAgo\<close> and the branch taken.
  A truthy value that is no record has no \<open>lastUpdated\<close>, and \<open>parseDate(undefined)\<close>
  throws.
\<close>

datatype decision = UseCache CachedDependencyInfo | Fetch | Throws

definition cacheDecision :: "env \<Rightarrow> lookup \<Rightarrow> decision" where
  "cacheDecision e cachedInfo =
     (case cachedInfo of
        Undefined \<Rightarrow> Fetch
      | Rec ci \<Rightarrow> if isCacheValid e ci then UseCache ci else Fetch
      | StringValue s \<Rightarrow> if s = [] then Fetch else Throws
      | BooleanValue b \<Rightarrow> if b then Throws else Fetch
      | Builtin \<Rightarrow> Throws)"

text \<open>The two counters a unit of work increments before it returns its block. The progress
  bar, which only writes to standard output, is left out.\<close>

definition countTask :: "bool \<Rightarrow> run_state \<Rightarrow> run_state" where
  "countTask permissive st =
     (let st1 = (if \<not> permissive then st\<lparr>nonPermissiveCount := nonPermissiveCount st + 1\<rparr> else st)
      in st1\<lparr>processedCount := processedCount st1 + 1\<rparr>)"

definition formatRecord :: "CachedDependencyInfo \<Rightarrow> jsstring" where
  "formatRecord r =
     formatDependencyInfo (name r) (npmLink r) (licenseLink r) (description r) (isPermissive r)
       (lastUpdated r)"

text \<open>The license link and the flag of a fetched package; \<open>None\<close> when an expression
  throws.\<close>

definition licenseParts :: "env \<Rightarrow> license_value \<Rightarrow> (jsstring \<times> bool) option" where
  "licenseParts e v =
     (case v of
        NoLicense \<Rightarrow>
          Some (js ''No license information available'', isPermissiveLicense (unicodeUpper e) [])
      | LicenseString s \<Rightarrow>
          if s = []
          then Some (js ''No license information available'', isPermissiveLicense (unicodeUpper e) [])
          else map_option
                 (\<lambda>encoded. (js ''https://opensource.org/licenses/'' @ encoded,
                              isPermissiveLicense (unicodeUpper e) s))
                 (encodeURIComponent s)
      | LicenseOther \<Rightarrow> None)"

definition fetchBranch :: "env \<Rightarrow> jsstring \<Rightarrow> run_state \<Rightarrow> (js_error + jsstring) \<times> run_state" where
  "fetchBranch e dep st =
     (let (packageInfo, st1) = fetchPackageInfo e dep st in
      case encodeURIComponent dep of
        None \<Rightarrow> (Inl Thrown, st1)
      | Some encodedDep \<Rightarrow>
          (case packageInfo of
             NullInfo \<Rightarrow> (Inl Thrown, st1)
           | Info info \<Rightarrow>
               (case licenseParts e (license info) of
                  None \<Rightarrow> (Inl Thrown, st1)
                | Some (licLink, permissive) \<Rightarrow>
                    (let npm = js ''https://www.npmjs.com/package/'' @ encodedDep;
                         st2 = countTask permissive st1
                     in case pkgDescription info of
                          NoDescription \<Rightarrow>
                            (Inr (formatDependencyInfo dep npm licLink [] permissive
                                    (localeStamp e dep)), st2)
                        | DescriptionValue t \<Rightarrow>
                            (Inr (entryText dep npm licLink t permissive (localeStamp e dep)), st2)
                        | DescriptionUnprintable \<Rightarrow> (Inl Thrown, st2)))))"

text \<open>One unit of work: the block it returns, or the exception it throws, and the state
  after it.\<close>

definition resolveDependency ::
  "env \<Rightarrow> cache \<Rightarrow> jsstring \<Rightarrow> run_state \<Rightarrow> (js_error + jsstring) \<times> run_state" where
  "resolveDependency e cachedDependencies dep st =
     (case cacheDecision e (lookupCached cachedDependencies dep) of
        Throws \<Rightarrow> (Inl Thrown, st)
      | UseCache cachedInfo \<Rightarrow>
          (let st1 = st\<lparr>cachedCount := cachedCount st + 1\<rparr>
           in (Inr (formatDependencyInfo dep (npmLink cachedInfo) (licenseLink cachedInfo)
                      (description cachedInfo) (isPermissive cachedInfo) (lastUpdated cachedInfo)),
               countTask (isPermissive cachedInfo) st1))
      | Fetch \<Rightarrow> fetchBranch e dep st)"

text \<open>
  The units of work, in the order of the sorted names. The queue runs them interleaved, but
  each touches the shared state by incrementing counters only, and \<open>Promise.all\<close> gives
  the blocks in the order of the names, so the blocks and the final counters are those of
  running them one after the other. A unit that throws does not stop the others: the queue
  still runs them, while \<open>Promise.all\<close> rejects. The requests and the log entries of the
  units are listed in the order of the names; in time they interleave as the queue schedules
  the units.
\<close>

fun resolveAll ::
  "env \<Rightarrow> cache \<Rightarrow> jsstring list \<Rightarrow> run_state \<Rightarrow> (js_error + jsstring) list \<times> run_state" where
  "resolveAll e cachedDependencies [] st = ([], st)"
| "resolveAll e cachedDependencies (dep # deps) st =
     (let (r, st1) = resolveDependency e cachedDependencies dep st;
          (rs, st2) = resolveAll e cachedDependencies deps st1
      in (r # rs, st2))"

definition keysOf :: "(jsstring \<times> jsstring) list option \<Rightarrow> jsstring list" where
  "keysOf m = (case m of None \<Rightarrow> [] | Some kvs \<Rightarrow> map fst kvs)"

text \<open>\<open>Object.keys({...dependencies, ...devDependencies}).sort()\<close>: every key once, in the
  default order of \<open>sort\<close>, which compares strings code unit by code unit.\<close>

definition sortedNames :: "PackageJson \<Rightarrow> jsstring list" where
  "sortedNames packageJson =
     sort (remdups (keysOf (dependencies packageJson) @ keysOf (devDependencies packageJson)))"

definition initialState :: run_state where
  "initialState = \<lparr>requests = [], errors = [], processedCount = 0, nonPermissiveCount = 0,
                    cachedCount = 0, written = None\<rparr>"

text \<open>The units of work of a run whose manifest was read.\<close>

definition runTasks :: "env \<Rightarrow> PackageJson \<Rightarrow> (js_error + jsstring) list \<times> run_state" where
  "runTasks e packageJson =
     (let (cachedDependencies, cacheErrors) = readCachedDependencies (outputFile e)
      in resolveAll e cachedDependencies (sortedNames packageJson)
           (initialState\<lparr>errors := cacheErrors\<rparr>))"

text \<open>\<open>Promise.all\<close>: the blocks, when no unit has thrown.\<close>

fun allBlocks :: "(js_error + jsstring) list \<Rightarrow> jsstring list option" where
  "allBlocks [] = Some []"
| "allBlocks (Inl err # rs) = None"
| "allBlocks (Inr b # rs) = map_option (\<lambda>bs. b # bs) (allBlocks rs)"

text \<open>The \<open>try\<close> block: the exception it ends with, if any, and the state reached.\<close>

definition tryBlock :: "env \<Rightarrow> js_error option \<times> run_state" where
  "tryBlock e =
     (case manifestFile e of
        Unreadable \<Rightarrow> (Some ReadFailed, initialState)
      | MalformedJson \<Rightarrow> (Some SyntaxError, initialState)
      | ManifestNull \<Rightarrow> (Some Thrown, initialState)
      | Manifest packageJson \<Rightarrow>
          (let dependenciesCount = length (sortedNames packageJson);
               (rs, st) = runTasks e packageJson
           in case allBlocks rs of
                None \<Rightarrow> (Some Thrown, st)
              | Some blocks \<Rightarrow>
                  (let dependenciesList = joinStr [nl, nl] blocks;
                       fullContent = header (generatedOn e) dependenciesCount (nonPermissiveCount st)
                                     @ dependenciesList @ footer
                   in if writeOk e then (None, st\<lparr>written := Some fullContent\<rparr>)
                      else (Some WriteFailed, st))))"

text \<open>How the promise of \<open>generateDependenciesList\<close> settles.\<close>

datatype settlement = Fulfilled | Rejected js_error

definition generateDependenciesList :: "env \<Rightarrow> settlement \<times> run_state" where
  "generateDependenciesList e =
     (case tryBlock e of
        (None, st) \<Rightarrow> (Fulfilled, st)
      | (Some error, st) \<Rightarrow> (Fulfilled, st\<lparr>errors := errors st @ [AnErrorOccurred]\<rparr>))"

section \<open>Vocabulary of the properties\<close>

text \<open>ASCII upper-casing, unit by unit: what \<open>toUpperCase\<close> does on an ASCII string.\<close>

definition asciiUpper :: "nat \<Rightarrow> nat" where
  "asciiUpper u = (if 97 \<le> u \<and> u \<le> 122 then u - 32 else u)"



text \<open>
  What \<open>fs.readFile\<close> with \<open>utf-8\<close> gives back of a string that \<open>fs.writeFile\<close> has
  written with \<open>utf-8\<close>: a surrogate without its partner has become U+FFFD.
\<close>

fun utf8File :: "jsstring \<Rightarrow> jsstring" where
  "utf8File [] = []"
| "utf8File [u] = (if isHighSurrogate u \<or> isLowSurrogate u then [0xFFFD] else [u])"
| "utf8File (u # v # vs) =
     (if isHighSurrogate u \<and> isLowSurrogate v then u # v # utf8File vs
      else if isHighSurrogate u \<or> isLowSurrogate u then 0xFFFD # utf8File (v # vs)
      else u # utf8File (v # vs))"

text \<open>A string that the file gives back as it was written: every surrogate in it has its
  partner.\<close>

definition wellPaired :: "jsstring \<Rightarrow> bool" where
  "wellPaired s = (utf8File s = s)"

text \<open>The entries of a report, as the Cache Reader cuts them.\<close>

definition entriesOf :: "jsstring \<Rightarrow> jsstring list" where
  "entriesOf text = tl (splitStr (js ''### '') text)"

text \<open>The document the Report Formatter writes for given records.\<close>

definition reportDocument :: "jsstring \<Rightarrow> CachedDependencyInfo list \<Rightarrow> jsstring" where
  "reportDocument generated rs =
     header generated (length rs) (length (filter (\<lambda>r. \<not> isPermissive r) rs))
     @ joinStr [nl, nl] (map formatRecord rs) @ footer"

text \<open>
  The lines of an entry as the formatter writes them, and the text of an entry after its
  \<open>###\<close> marker.
\<close>

definition titleLine :: "CachedDependencyInfo \<Rightarrow> jsstring" where
  "titleLine r = (if isPermissive r then [] else glyph @ js '' '') @ name r"

definition descriptionLine :: "CachedDependencyInfo \<Rightarrow> jsstring" where
  "descriptionLine r =
     (if description r = [] then js ''No description available.'' else description r)"

definition npmLine :: "CachedDependencyInfo \<Rightarrow> jsstring" where
  "npmLine r = js ''- **NPM:** ['' @ npmLink r @ js '']('' @ npmLink r @ js '')''"

definition licenseLine :: "CachedDependencyInfo \<Rightarrow> jsstring" where
  "licenseLine r = js ''- **License:** ['' @ licenseLink r @ js '']('' @ licenseLink r @ js '')''"

definition cacheLine :: "CachedDependencyInfo \<Rightarrow> jsstring" where
  "cacheLine r = js ''- *Cache:* '' @ lastUpdated r"

definition entryBody :: "CachedDependencyInfo \<Rightarrow> jsstring" where
  "entryBody r =
     titleLine r @ [nl, nl] @ descriptionLine r @ [nl, nl] @ npmLine r @ [nl]
     @ licenseLine r @ [nl] @ cacheLine r
     @ (if isPermissive r then [] else warningNoteText) @ [nl, nl] @ js ''---''"

text \<open>What \<open>split("### ")\<close> leaves of blocks joined into a report: all but the last are
  followed by the blank line of the join, the last by the footer.\<close>

fun entryTexts :: "jsstring list \<Rightarrow> jsstring list" where
  "entryTexts [] = []"
| "entryTexts [b] = [b @ footer]"
| "entryTexts (b # b' # bs) = (b @ [nl, nl]) # entryTexts (b' # bs)"

text \<open>
  The records this development follows through the file: every field is one line, holds no
  entry marker and no surrogate without its partner; the name and a description that is not
  empty have no white space at their ends; the name does not hold the warning glyph and is
  not \<open>__proto__\<close>; the links hold no opening parenthesis.
\<close>

definition singleLine :: "jsstring \<Rightarrow> bool" where
  "singleLine s =
     (nl \<notin> set s \<and> \<not> includesStr s (js ''### '') \<and> wellPaired s)"

definition trimmed :: "jsstring \<Rightarrow> bool" where
  "trimmed s = (s \<noteq> [] \<and> \<not> isSpace (hd s) \<and> \<not> isSpace (last s))"

definition wellFormedRecord :: "CachedDependencyInfo \<Rightarrow> bool" where
  "wellFormedRecord r =
     (trimmed (name r) \<and> singleLine (name r) \<and> \<not> includesStr (name r) glyph
      \<and> name r \<noteq> js ''__proto__''
      \<and> (description r = [] \<or> trimmed (description r)) \<and> singleLine (description r)
      \<and> singleLine (npmLink r) \<and> 40 \<notin> set (npmLink r)
      \<and> singleLine (licenseLink r) \<and> 40 \<notin> set (licenseLink r)
      \<and> singleLine (lastUpdated r))"


section \<open>A concrete run\<close>

text \<open>
  A previous report with one entry, written on 20 November 2024 at 0:25:02, and a run one day
  later, in the time zone UTC, over three dependencies: \<open>left-pad\<close> is in the previous report,
  \<open>copyleft-lib\<close> is GPL, and the request for \<open>broken-pkg\<close> fails. The engine's own
  parser rejects the timestamps of this locale.
\<close>

definition leftPadBlock :: jsstring where
  "leftPadBlock =
     formatDependencyInfo (js ''left-pad'') (js ''https://www.npmjs.com/package/left-pad'')
       (js ''https://opensource.org/licenses/MIT'') (js ''String left pad'') True
       (js ''20. 11. 2024 0:25:02'')"

definition previousReport :: jsstring where
  "previousReport = header (js ''20. 11. 2024 0:25:02'') 1 0 @ leftPadBlock @ footer"

definition exampleRegistry :: "jsstring \<Rightarrow> fetch_result" where
  "exampleRegistry url =
     (if url = js ''https://registry.npmjs.org/left-pad''
      then Response True (JsonValue \<lparr>license = LicenseString (js ''MIT''),
                                     pkgDescription = DescriptionValue (js ''String left pad'')\<rparr>)
      else if url = js ''https://registry.npmjs.org/copyleft-lib''
      then Response True (JsonValue \<lparr>license = LicenseString (js ''GPL-3.0''),
                                     pkgDescription = DescriptionValue (js ''Copyleft'')\<rparr>)
      else NetworkError)"

definition exampleDateLocal :: "jsstring \<Rightarrow> jsstring \<Rightarrow> jsstring \<Rightarrow> jsstring \<Rightarrow> int option" where
  "exampleDateLocal year month day hour =
     (if year = js ''2024'' \<and> month = js ''11'' \<and> day = js ''20'' \<and> hour = js ''0''
      then Some 1732060800000 else None)"

definition examplePackageJson :: PackageJson where
  "examplePackageJson =
     \<lparr>dependencies = Some [(js ''left-pad'', js ''1.3.0''), (js ''copyleft-lib'', js ''2.0.0'')],
      devDependencies = Some [(js ''broken-pkg'', js ''0.1.0''), (js ''left-pad'', js ''1.3.0'')]\<rparr>"

definition exampleEnv :: env where
  "exampleEnv =
     \<lparr>manifestFile = Manifest examplePackageJson,
      outputFile = Some previousReport,
      registry = exampleRegistry,
      writeOk = True,
      now = 1732148702000,
      utcOffset = (\<lambda>t. 0),
      localToUtc = (\<lambda>w. w),
      dateParse = (\<lambda>s. None),
      dateLocal = exampleDateLocal,
      localeStamp = (\<lambda>dep. js ''21. 11. 2024 0:25:02''),
      generatedOn = js ''21. 11. 2024 0:25:02'',
      unicodeUpper = (\<lambda>s. s)\<rparr>"

text \<open>The record the Cache Reader gives for that entry, one whose timestamp is no date, and
  the record of a dependency whose fetch has failed.\<close>

definition leftPadCached :: CachedDependencyInfo where
  "leftPadCached =
     \<lparr>name = js ''left-pad'', npmLink = js ''https://www.npmjs.com/package/left-pad'',
      licenseLink = js ''https://opensource.org/licenses/MIT'',
      description = js ''String left pad'', isPermissive = True,
      lastUpdated = js '' 20. 11. 2024 0''\<rparr>"


definition brokenRecord :: CachedDependencyInfo where
  "brokenRecord =
     \<lparr>name = js ''broken-pkg'', npmLink = js ''https://www.npmjs.com/package/broken-pkg'',
      licenseLink = js ''No license information available'', description = [],
      isPermissive = False, lastUpdated = js ''21. 11. 2024 0:25:02''\<rparr>"

definition copyleftRecord :: CachedDependencyInfo where
  "copyleftRecord =
     \<lparr>name = js ''copyleft-lib'', npmLink = js ''https://www.npmjs.com/package/copyleft-lib'',
      licenseLink = js ''https://opensource.org/licenses/GPL-3.0'',
      description = js ''Copyleft'', isPermissive = False,
      lastUpdated = js ''21. 11. 2024 0:25:02''\<rparr>"



text \<open>The same run with a manifest whose only dependency is \<open>constructor\<close>.\<close>

definition constructorJson :: PackageJson where
  "constructorJson =
     \<lparr>dependencies = Some [(js ''constructor'', js ''1.0.0'')], devDependencies = None\<rparr>"

definition constructorEnv :: env where
  "constructorEnv = exampleEnv\<lparr>manifestFile := Manifest constructorJson\<rparr>"


text \<open>The same run with a registry that answers the request for \<open>broken-pkg\<close> with the
  JSON \<open>null\<close>, and with one that answers it with a license object, as old packages have.\<close>

definition nullBodyEnv :: env where
  "nullBodyEnv =
     exampleEnv\<lparr>registry := (\<lambda>url. if url = js ''https://registry.npmjs.org/broken-pkg''
                                    then Response True JsonNull else exampleRegistry url)\<rparr>"

definition licenseObjectEnv :: env where
  "licenseObjectEnv =
     exampleEnv\<lparr>registry := (\<lambda>url. if url = js ''https://registry.npmjs.org/broken-pkg''
                                    then Response True (JsonValue \<lparr>license = LicenseOther,
                                           pkgDescription = DescriptionValue (js ''Old package'')\<rparr>)
                                    else exampleRegistry url)\<rparr>"

text \<open>A run without previous report over one dependency whose name starts with the warning
  glyph and whose license is MIT.\<close>

definition glyphName :: jsstring where
  "glyphName = glyph @ js '' x''"

definition glyphNameJson :: PackageJson where
  "glyphNameJson = \<lparr>dependencies = Some [(glyphName, js ''1.0.0'')], devDependencies = None\<rparr>"

definition glyphNameEnv :: env where
  "glyphNameEnv =
     exampleEnv\<lparr>manifestFile := Manifest glyphNameJson,
                 outputFile := None,
                 registry := (\<lambda>url. Response True
                                (JsonValue \<lparr>license = LicenseString (js ''MIT''),
                                             pkgDescription = DescriptionValue (js ''Glyph'')\<rparr>))\<rparr>"

text \<open>The string \<open>m\<close>, dotless i, \<open>t\<close>.\<close>

definition dotlessMit :: jsstring where
  "dotlessMit = [109, 0x131, 116]"

text \<open>The report that the run of the example writes.\<close>

definition exampleReport :: jsstring where
  "exampleReport =
     reportDocument (js ''21. 11. 2024 0:25:02'') [brokenRecord, copyleftRecord, leftPadCached]"

text \<open>The record and the report of the run over the dependency named with the glyph.\<close>

definition glyphNameRecord :: CachedDependencyInfo where
  "glyphNameRecord =
     \<lparr>name = glyphName,
      npmLink = js ''https://www.npmjs.com/package/%E2%9A%A0%EF%B8%8F%20x'',
      licenseLink = js ''https://opensource.org/licenses/MIT'',
      description = js ''Glyph'', isPermissive = True,
      lastUpdated = js ''21. 11. 2024 0:25:02''\<rparr>"

definition glyphNameReport :: jsstring where
  "glyphNameReport = reportDocument (js ''21. 11. 2024 0:25:02'') [glyphNameRecord]"

section \<open>The classifier against the specification\<close>

lemma asciiUpper_eq_iff: "asciiUpper a = asciiUpper b \<longleftrightarrow> sameLetter a b"
  unfolding asciiUpper_def sameLetter_def
  by (cases "97 \<le> a \<and> a \<le> 122"; cases "97 \<le> b \<and> b \<le> 122") auto

lemma map_asciiUpper_eq_iff: "map asciiUpper u = map asciiUpper p \<longleftrightarrow> list_all2 sameLetter u p"
proof (induction u arbitrary: p)
  case Nil
  then show ?case by simp
next
  case (Cons a u)
  then show ?case
    by (cases p) (simp_all add: asciiUpper_eq_iff)
qed

lemma includesStr_iff: "includesStr s p \<longleftrightarrow> (\<exists>pre suf. s = pre @ p @ suf)"
proof (induction s)
  case Nil then show ?case by auto
next
  case (Cons c cs)
  show ?case
    by (simp add: Cons.IH prefix_def) (metis append_eq_Cons_conv append_self_conv2)
qed

lemma map_eq_append3:
  assumes "map f s = x @ y @ z"
  shows "\<exists>a b c. s = a @ b @ c \<and> map f b = y"
proof -
  have "map f (take (length y) (drop (length x) s)) = take (length y) (drop (length x) (map f s))"
    by (simp add: take_map drop_map)
  also have "\<dots> = y"
    by (simp add: assms)
  finally have "map f (take (length y) (drop (length x) s)) = y" .
  moreover have "s = take (length x) s @ take (length y) (drop (length x) s)
                    @ drop (length y) (drop (length x) s)"
    by (simp only: append_take_drop_id)
  ultimately show ?thesis by blast
qed

lemma includes_asciiUpper_iff:
  "includesStr (map asciiUpper s) (map asciiUpper p) \<longleftrightarrow> containsIgnoringCase s p"
proof
  assume "includesStr (map asciiUpper s) (map asciiUpper p)"
  then obtain pre suf where "map asciiUpper s = pre @ map asciiUpper p @ suf"
    by (auto simp: includesStr_iff)
  then obtain a b c where "s = a @ b @ c" "map asciiUpper b = map asciiUpper p"
    using map_eq_append3 [of asciiUpper s pre "map asciiUpper p" suf] by auto
  then show "containsIgnoringCase s p"
    unfolding containsIgnoringCase_def map_asciiUpper_eq_iff by blast
next
  assume "containsIgnoringCase s p"
  then obtain a b c where s: "s = a @ b @ c" and "list_all2 sameLetter b p"
    unfolding containsIgnoringCase_def by blast
  then have "map asciiUpper b = map asciiUpper p"
    by (simp add: map_asciiUpper_eq_iff)
  then have "map asciiUpper s = map asciiUpper a @ map asciiUpper p @ map asciiUpper c"
    by (simp add: s)
  then show "includesStr (map asciiUpper s) (map asciiUpper p)"
    unfolding includesStr_iff by blast
qed

lemma js_ascii: "list_all (\<lambda>c. (of_char c :: nat) < 128) s \<Longrightarrow> \<forall>u\<in>set (js s). u < 128"
  by (induction s) (auto simp: js_def)

lemma toUpperCase_ascii:
  assumes "\<forall>u\<in>set s. u < 128"
  shows "toUpperCase U s = map asciiUpper s"
proof -
  have "list_all plainCase s"
    using assms by (simp add: list_all_iff plainCase_def)
  moreover have "map upperUnit s = map asciiUpper s"
    using assms by (auto simp: upperUnit_def asciiUpper_def)
  ultimately show ?thesis
    by (simp add: toUpperCase_def)
qed

lemma permissiveLicenses_ascii: "pl \<in> set permissiveLicenses \<Longrightarrow> \<forall>u\<in>set pl. u < 128"
  unfolding permissiveLicenses_def by (auto simp: js_def)

lemma isPermissiveLicense_ascii:
  assumes "\<forall>u\<in>set lic. u < 128"
  shows "isPermissiveLicense U lic \<longleftrightarrow> (\<exists>pl\<in>set permissiveLicenses. containsIgnoringCase lic pl)"
  unfolding isPermissiveLicense_def list_ex_iff
  using toUpperCase_ascii [OF assms] toUpperCase_ascii [OF permissiveLicenses_ascii]
  by (simp add: includes_asciiUpper_iff)

lemma isPermissiveLicense_empty: "\<not> isPermissiveLicense U []"
  by (simp add: isPermissiveLicense_def permissiveLicenses_def toUpperCase_def js_def
      upperUnit_def plainCase_def)

text \<open>
  Claim C5, as the code has it. For a license string of ASCII characters, the License
  Classifier returns true
  exactly when the string contains, case-insensitively, one of MIT, BSD, Apache, ISC,
  Unlicense, CC0, WTFPL, Zlib; so the empty string, and every such string that contains none
  of them, is classified as non-permissive. (\<open>U\<close> is the upper-casing of the engine beyond
  the characters the model writes out.)
\<close>

theorem isPermissiveLicense_iff:
  assumes "\<forall>u\<in>set lic. u < 128"
  shows "(isPermissiveLicense U lic \<longleftrightarrow>
            (\<exists>pl \<in> set (map js [''MIT'', ''BSD'', ''Apache'', ''ISC'', ''Unlicense'', ''CC0'',
                                  ''WTFPL'', ''Zlib'']).
               containsIgnoringCase lic pl))
         \<and> \<not> isPermissiveLicense U []"
  using isPermissiveLicense_ascii [OF assms, of U] isPermissiveLicense_empty [of U]
  unfolding permissiveLicenses_def by blast

theorem isPermissiveLicense_iff_witness:
  "list_all (\<lambda>u. u < 128) (js ''(mit OR Apache-2.0)'')
   \<and> (\<exists>pl \<in> set (map js [''MIT'', ''BSD'', ''Apache'', ''ISC'', ''Unlicense'', ''CC0'',
                           ''WTFPL'', ''Zlib'']).
        containsIgnoringCase (js ''(mit OR Apache-2.0)'') pl)
   \<and> list_all (\<lambda>u. u < 128) (js ''GPL-3.0'')
   \<and> \<not> (\<exists>pl \<in> set (map js [''MIT'', ''BSD'', ''Apache'', ''ISC'', ''Unlicense'', ''CC0'',
                           ''WTFPL'', ''Zlib'']).
        containsIgnoringCase (js ''GPL-3.0'') pl)"
proof -
  have a: "list_all (\<lambda>u. u < 128) (js ''(mit OR Apache-2.0)'')"
    and b: "list_all (\<lambda>u. u < 128) (js ''GPL-3.0'')"
    by (simp_all add: js_def)
  have c: "isPermissiveLicense (\<lambda>s. s) (js ''(mit OR Apache-2.0)'')"
    by code_simp
  have d: "\<not> isPermissiveLicense (\<lambda>s. s) (js ''GPL-3.0'')"
    by code_simp
  from a b c d show ?thesis
    using isPermissiveLicense_iff [of "js ''(mit OR Apache-2.0)''" "\<lambda>s. s", THEN conjunct1]
      isPermissiveLicense_iff [of "js ''GPL-3.0''" "\<lambda>s. s", THEN conjunct1]
    unfolding list_all_iff by blast
qed

text \<open>
  Claim C5 as stated fails. The string \<open>m\<close>, dotless i, \<open>t\<close> contains none of the
  patterns case-insensitively (its second character is no letter of any of them), and is
  classified as permissive: \<open>toUpperCase\<close> maps U+0131 to \<open>I\<close>.
\<close>

theorem dotless_mit_is_permissive:
  "isPermissiveLicense (unicodeUpper exampleEnv) dotlessMit
   \<and> \<not> list_ex (containsIgnoringCase dotlessMit)
         (map js [''MIT'', ''BSD'', ''Apache'', ''ISC'', ''Unlicense'', ''CC0'', ''WTFPL'',
                  ''Zlib''])"
proof
  show "isPermissiveLicense (unicodeUpper exampleEnv) dotlessMit"
    by code_simp
  have "\<not> list_ex (\<lambda>pl. includesStr (map asciiUpper dotlessMit) (map asciiUpper pl))
           (map js [''MIT'', ''BSD'', ''Apache'', ''ISC'', ''Unlicense'', ''CC0'', ''WTFPL'',
                  ''Zlib''])"
    by code_simp
  then show "\<not> list_ex (containsIgnoringCase dotlessMit)
         (map js [''MIT'', ''BSD'', ''Apache'', ''ISC'', ''Unlicense'', ''CC0'', ''WTFPL'',
                  ''Zlib''])"
    unfolding includes_asciiUpper_iff .
qed

section \<open>Searching and splitting\<close>

lemma marker_eq: "js ''### '' = [35, 35, 35, 32]"
  by (simp add: js_def)

lemma prefix_append_notin:
  assumes "c \<notin> set p"
  shows "prefix p (a @ c # b) \<longleftrightarrow> prefix p a"
proof
  assume "prefix p (a @ c # b)"
  then consider "prefix p a" | us where "p = a @ us" "prefix us (c # b)"
    by (auto simp: prefix_append)
  then show "prefix p a"
  proof cases
    case 1
    then show ?thesis .
  next
    case 2
    with assms show ?thesis
      by (cases us) auto
  qed
next
  assume "prefix p a"
  then show "prefix p (a @ c # b)"
    by (rule prefix_prefix)
qed



lemma includesStr_append_notin:
  assumes "c \<notin> set p" "p \<noteq> []"
  shows "includesStr (a @ c # b) p \<longleftrightarrow> includesStr a p \<or> includesStr b p"
proof (induction a)
  case Nil
  from assms have "\<not> prefix p (c # b)"
    by (cases p) auto
  with assms(2) show ?case by simp
next
  case (Cons x a)
  have "prefix p ((x # a) @ c # b) \<longleftrightarrow> prefix p (x # a)"
    using assms(1) by (rule prefix_append_notin)
  with Cons show ?case by auto
qed

lemma splitStr_none:
  assumes "\<not> includesStr a sep"
  shows "splitStr sep a = [a]"
  using assms
proof (induction a)
  case Nil
  show ?case by simp
next
  case (Cons x a)
  then show ?case by simp
qed




lemma hash_not_prefix:
  assumes "t \<noteq> []" "\<not> prefix [35, 35, 35, 32] (t :: nat list)"
  shows "\<not> prefix [35, 35, 35, 32] (t @ [35, 35, 35, 32] @ b)"
proof (cases t)
  case Nil
  with assms show ?thesis by simp
next
  case t: (Cons x1 t1)
  show ?thesis
  proof (cases t1)
    case Nil
    with t show ?thesis by simp
  next
    case t1: (Cons x2 t2)
    show ?thesis
    proof (cases t2)
      case Nil
      with t t1 show ?thesis by simp
    next
      case t2: (Cons x3 t3)
      show ?thesis
      proof (cases t3)
        case Nil
        with t t1 t2 show ?thesis by simp
      next
        case (Cons x4 t4)
        with t t1 t2 assms show ?thesis by simp
      qed
    qed
  qed
qed

lemma splitStr_hash:
  assumes "\<not> includesStr a (js ''### '')"
  shows "splitStr (js ''### '') (a @ js ''### '' @ b) = a # splitStr (js ''### '') b"
  using assms unfolding marker_eq
proof (induction a)
  case Nil
  show ?case by simp
next
  case (Cons x a)
  then have "\<not> prefix [35, 35, 35, 32] (x # a)" "\<not> includesStr a [35, 35, 35, 32]"
    by simp_all
  moreover from this have "\<not> prefix [35, 35, 35, 32] ((x # a) @ [35, 35, 35, 32] @ b)"
    by (intro hash_not_prefix) simp_all
  ultimately show ?case
    using Cons.IH by simp
qed









lemma no_hash_no_marker: "35 \<notin> set s \<Longrightarrow> \<not> includesStr s (js ''### '')"
  unfolding marker_eq by (induction s) auto

lemma showNat_no_hash: "35 \<notin> set (showNat n)"
proof (induction n rule: showNat.induct)
  case (1 n)
  show ?case
  proof (cases "n < 10")
    case True
    then show ?thesis
      by (subst showNat.simps) simp
  next
    case False
    then show ?thesis
      using 1 by (subst showNat.simps) simp
  qed
qed

lemma header_no_marker:
  assumes "\<not> includesStr generated (js ''### '')"
  shows "\<not> includesStr (header generated n k) (js ''### '')"
  using assms no_hash_no_marker [OF showNat_no_hash [of n]]
    no_hash_no_marker [OF showNat_no_hash [of k]]
  unfolding marker_eq
  by (simp add: header_def glyph_def nl_def js_def includesStr_append_notin)

lemma footer_eq: "footer = nl # nl # js ''---'' @ nl # nl # js ''End of Dependencies List''"
  by (simp add: footer_def)

lemma footer_after:
  "\<not> includesStr a (js ''### '') \<Longrightarrow> \<not> includesStr (a @ footer) (js ''### '')"
  unfolding marker_eq
  by (simp add: footer_def nl_def js_def includesStr_append_notin)

text \<open>Blocks that start with the entry marker and hold no other, joined into a report, are
  cut apart again by \<open>split\<close>.\<close>

lemma body_no_marker:
  assumes "\<not> includesStr body (js ''### '')" "\<not> includesStr t (js ''### '')"
  shows "\<not> includesStr (body @ nl # t) (js ''### '')"
  using assms unfolding marker_eq
  by (simp add: nl_def includesStr_append_notin)

lemma split_blocks:
  assumes "bodies \<noteq> []" "\<forall>body \<in> set bodies. \<not> includesStr body (js ''### '')"
    "\<not> includesStr pre (js ''### '')"
  shows "splitStr (js ''### '') (pre @ joinStr [nl, nl] (map (\<lambda>body. js ''### '' @ body) bodies)
                                   @ footer)
         = pre # entryTexts bodies"
  using assms
proof (induction bodies arbitrary: pre rule: entryTexts.induct)
  case 1
  then show ?case by simp
next
  case (2 b)
  have "\<not> includesStr (b @ footer) (js ''### '')"
    using 2(2) by (simp add: footer_after)
  then have "splitStr (js ''### '') (b @ footer) = [b @ footer]"
    by (rule splitStr_none)
  moreover have "splitStr (js ''### '') (pre @ js ''### '' @ (b @ footer))
                 = pre # splitStr (js ''### '') (b @ footer)"
    using 2(3) by (rule splitStr_hash)
  ultimately show ?case
    by simp
next
  case (3 b b' bs)
  define rest where
    "rest = joinStr [nl, nl] (map (\<lambda>body. js ''### '' @ body) (b' # bs)) @ footer"
  have "\<not> includesStr (b @ nl # [nl]) (js ''### '')"
    using 3(3) by (intro body_no_marker) (simp_all add: marker_eq nl_def)
  then have body: "\<not> includesStr (b @ [nl, nl]) (js ''### '')"
    by simp
  have eq: "pre @ joinStr [nl, nl] (map (\<lambda>body. js ''### '' @ body) (b # b' # bs)) @ footer
            = pre @ js ''### '' @ ((b @ [nl, nl]) @ rest)"
    by (simp add: rest_def)
  have "splitStr (js ''### '') ((b @ [nl, nl]) @ rest) = (b @ [nl, nl]) # entryTexts (b' # bs)"
    unfolding rest_def using 3(3) body by (intro 3(1)) simp_all
  moreover have "splitStr (js ''### '') (pre @ js ''### '' @ ((b @ [nl, nl]) @ rest))
        = pre # splitStr (js ''### '') ((b @ [nl, nl]) @ rest)"
    using 3(4) by (rule splitStr_hash)
  ultimately show ?case
    by (simp only: eq entryTexts.simps)
qed

lemma entries_of_report:
  assumes "\<forall>body \<in> set bodies. \<not> includesStr body (js ''### '')"
    "\<not> includesStr generated (js ''### '')"
  shows "entriesOf (header generated n k
                    @ joinStr [nl, nl] (map (\<lambda>body. js ''### '' @ body) bodies) @ footer)
         = entryTexts bodies"
proof (cases "bodies = []")
  case True
  have "\<not> includesStr (header generated n k @ footer) (js ''### '')"
    using header_no_marker [OF assms(2)] by (rule footer_after)
  then have "splitStr (js ''### '') (header generated n k @ footer) = [header generated n k @ footer]"
    by (rule splitStr_none)
  with True show ?thesis
    by (simp add: entriesOf_def)
next
  case False
  then show ?thesis
    using split_blocks [OF False assms(1) header_no_marker [OF assms(2)]]
    by (simp add: entriesOf_def)
qed

lemma entryTexts_length: "length (entryTexts bs) = length bs"
  by (induction bs rule: entryTexts.induct) simp_all

section \<open>The pipeline, one unit of work at a time\<close>


lemma fetchPackageInfo_counters:
  "nonPermissiveCount (snd (fetchPackageInfo e dep st)) = nonPermissiveCount st"
  "processedCount (snd (fetchPackageInfo e dep st)) = processedCount st"
  "cachedCount (snd (fetchPackageInfo e dep st)) = cachedCount st"
  "written (snd (fetchPackageInfo e dep st)) = written st"
  by (simp_all add: fetchPackageInfo_def Let_def
      split: fetch_result.splits option.splits response_body.splits)

lemma countTask_fields:
  "requests (countTask p st) = requests st"
  "cachedCount (countTask p st) = cachedCount st"
  "written (countTask p st) = written st"
  "nonPermissiveCount (countTask p st) = nonPermissiveCount st + (if p then 0 else 1)"
  by (simp_all add: countTask_def Let_def)



lemma fetchBranch_written:
  "written (snd (fetchBranch e dep st)) = written st"
  using fetchPackageInfo_counters(4) [of e dep st]
  by (simp add: fetchBranch_def split_def Let_def countTask_fields
      split: option.splits package_info.splits description_value.splits)


lemma resolveDependency_written:
  "written (snd (resolveDependency e c dep st)) = written st"
  by (simp add: resolveDependency_def Let_def fetchBranch_written countTask_fields
      split: decision.splits)

lemma resolveAll_Cons:
  "fst (resolveAll e c (dep # deps) st) =
     fst (resolveDependency e c dep st)
     # fst (resolveAll e c deps (snd (resolveDependency e c dep st)))"
  "snd (resolveAll e c (dep # deps) st) =
     snd (resolveAll e c deps (snd (resolveDependency e c dep st)))"
  by (simp_all add: split_def Let_def)

lemma resolveAll_length: "length (fst (resolveAll e c deps st)) = length deps"
  by (induction deps arbitrary: st) (simp_all add: resolveAll_Cons del: resolveAll.simps(2))

lemma resolveAll_written: "written (snd (resolveAll e c deps st)) = written st"
  by (induction deps arbitrary: st)
    (simp_all add: resolveAll_Cons resolveDependency_written del: resolveAll.simps(2))











lemma generate_manifest_failure:
  assumes "manifestFile e = Unreadable \<or> manifestFile e = MalformedJson"
  shows "generateDependenciesList e = (Fulfilled, initialState\<lparr>errors := [AnErrorOccurred]\<rparr>)"
  using assms
  by (auto simp: generateDependenciesList_def tryBlock_def initialState_def)

section \<open>Manifest failures\<close>

text \<open>
  Claim C2, as the code has it. When the manifest cannot be read or is not JSON, no report is
  written, no request is sent and the failure is logged by the handler of the \<open>try\<close> block;
  the handler ends normally, so the promise of the run is fulfilled and not rejected.
\<close>

theorem manifest_failure_is_caught:
  assumes "manifestFile e = Unreadable \<or> manifestFile e = MalformedJson"
  shows "fst (generateDependenciesList e) = Fulfilled
         \<and> written (snd (generateDependenciesList e)) = None
         \<and> errors (snd (generateDependenciesList e)) = [AnErrorOccurred]
         \<and> requests (snd (generateDependenciesList e)) = []"
  by (simp add: generate_manifest_failure [OF assms] initialState_def)

theorem manifest_failure_is_caught_witness:
  "manifestFile (exampleEnv\<lparr>manifestFile := MalformedJson\<rparr>) = MalformedJson
   \<and> fst (generateDependenciesList (exampleEnv\<lparr>manifestFile := MalformedJson\<rparr>)) = Fulfilled
   \<and> written (snd (generateDependenciesList (exampleEnv\<lparr>manifestFile := MalformedJson\<rparr>))) = None
   \<and> errors (snd (generateDependenciesList (exampleEnv\<lparr>manifestFile := MalformedJson\<rparr>)))
       = [AnErrorOccurred]"
  using manifest_failure_is_caught [of "exampleEnv\<lparr>manifestFile := MalformedJson\<rparr>"]
  by simp

text \<open>Claim C2 as stated fails: the run of the example with an unreadable manifest is
  fulfilled, it does not end abnormally.\<close>

theorem manifest_failure_not_abnormal:
  "manifestFile (exampleEnv\<lparr>manifestFile := Unreadable\<rparr>) = Unreadable
   \<and> fst (generateDependenciesList (exampleEnv\<lparr>manifestFile := Unreadable\<rparr>)) = Fulfilled
   \<and> fst (generateDependenciesList (exampleEnv\<lparr>manifestFile := Unreadable\<rparr>))
       \<noteq> Rejected ReadFailed"
  by (simp add: generateDependenciesList_def tryBlock_def)

section \<open>The Cache Reader on malformed entries\<close>










section \<open>Staleness\<close>




section \<open>Reading back a written report\<close>

lemma utf8File_plain:
  assumes "\<not> isHighSurrogate u" "\<not> isLowSurrogate u"
  shows "utf8File (u # s) = u # utf8File s"
  using assms by (cases s) simp_all

lemma substitute_no_surrogate: "\<not> isHighSurrogate 0xFFFD" "\<not> isLowSurrogate 0xFFFD"
  by (simp_all add: isHighSurrogate_def isLowSurrogate_def)

lemma utf8File_append:
  assumes "wellPaired a"
  shows "utf8File (a @ b) = a @ utf8File b"
  using assms unfolding wellPaired_def
proof (induction a rule: utf8File.induct)
  case 1
  show ?case by simp
next
  case (2 u)
  then have "\<not> isHighSurrogate u" "\<not> isLowSurrogate u"
    using substitute_no_surrogate by (auto split: if_splits)
  then show ?case
    by (simp add: utf8File_plain)
next
  case (3 u v vs)
  show ?case
  proof (cases "isHighSurrogate u \<and> isLowSurrogate v")
    case True
    with 3 show ?thesis by simp
  next
    case False
    with 3(4) have plain: "\<not> isHighSurrogate u" "\<not> isLowSurrogate u"
      using substitute_no_surrogate by (auto split: if_splits)
    with False 3(4) have "utf8File (v # vs) = v # vs"
      by simp
    with False plain 3(3) have "utf8File ((v # vs) @ b) = (v # vs) @ utf8File b"
      by simp
    with plain show ?thesis
      by (simp add: utf8File_plain)
  qed
qed

lemma wellPaired_append: "wellPaired a \<Longrightarrow> wellPaired (a @ b) \<longleftrightarrow> wellPaired b"
  by (simp add: wellPaired_def [of "a @ b"] wellPaired_def [of b] utf8File_append)

lemma wellPaired_Cons:
  "\<not> isHighSurrogate u \<Longrightarrow> \<not> isLowSurrogate u \<Longrightarrow> wellPaired (u # s) \<longleftrightarrow> wellPaired s"
  by (simp add: wellPaired_def utf8File_plain)

lemma wellPaired_Nil: "wellPaired []"
  by (simp add: wellPaired_def)

lemma wellPaired_small: "\<forall>u \<in> set s. u < 0xD800 \<Longrightarrow> wellPaired s"
  by (induction s)
    (simp_all add: wellPaired_Nil wellPaired_Cons isHighSurrogate_def isLowSurrogate_def)

lemma wellPaired_js: "wellPaired (js s)"
proof (rule wellPaired_small, rule ballI)
  fix u assume "u \<in> set (js s)"
  then obtain c where u: "u = of_char c"
    by (auto simp: js_def)
  have "(of_char c :: nat) < 256"
    by (rule nat_of_char_less_256)
  then have "(of_char c :: nat) < 0xD800"
    by linarith
  then show "u < 0xD800"
    unfolding u .
qed

lemma showNat_digits: "\<forall>u \<in> set (showNat n). u < 58"
proof (induction n rule: showNat.induct)
  case (1 n)
  show ?case
  proof (cases "n < 10")
    case True
    then show ?thesis
      by (subst showNat.simps) simp
  next
    case False
    have "n mod 10 < 10" by simp
    then have "48 + n mod 10 < 58" by linarith
    with False 1 show ?thesis
      by (subst showNat.simps) simp
  qed
qed

lemma wellPaired_showNat: "wellPaired (showNat n)"
  using showNat_digits [of n] by (intro wellPaired_small) fastforce

lemma wellPaired_glyph: "wellPaired glyph"
  by (simp add: glyph_def wellPaired_Cons wellPaired_Nil isHighSurrogate_def isLowSurrogate_def)

lemma nl_plain: "\<not> isHighSurrogate nl" "\<not> isLowSurrogate nl"
  "\<not> isHighSurrogate 39" "\<not> isLowSurrogate 39"
  by (simp_all add: nl_def isHighSurrogate_def isLowSurrogate_def)

lemmas wellPaired_simps =
  wellPaired_append wellPaired_Cons wellPaired_Nil wellPaired_js wellPaired_showNat
  wellPaired_glyph nl_plain

lemma wellPaired_header: "wellPaired generated \<Longrightarrow> wellPaired (header generated n k)"
  by (simp add: header_def wellPaired_simps)

lemma wellPaired_footer: "wellPaired footer"
  by (simp add: footer_def wellPaired_simps)

lemma formatRecord_entryBody: "formatRecord r = js ''### '' @ entryBody r"
  by (simp add: formatRecord_def formatDependencyInfo_def entryText_def entryBody_def
      titleLine_def descriptionLine_def npmLine_def licenseLine_def cacheLine_def)

lemma wellPaired_entryBody: "wellFormedRecord r \<Longrightarrow> wellPaired (entryBody r)"
  by (simp add: wellFormedRecord_def singleLine_def entryBody_def titleLine_def
      descriptionLine_def npmLine_def licenseLine_def cacheLine_def warningNoteText_def
      wellPaired_simps)

lemma wellPaired_blocks:
  assumes "\<forall>r \<in> set rs. wellFormedRecord r" "wellPaired t"
  shows "wellPaired (joinStr [nl, nl] (map formatRecord rs) @ t)"
  using assms
  by (induction rs rule: induct_list012)
    (simp_all add: formatRecord_entryBody wellPaired_entryBody wellPaired_simps)

lemma utf8File_report:
  assumes "\<forall>r \<in> set rs. wellFormedRecord r" "wellPaired generated"
  shows "utf8File (reportDocument generated rs) = reportDocument generated rs"
  using wellPaired_header [OF assms(2)] wellPaired_blocks [OF assms(1) wellPaired_footer]
  unfolding reportDocument_def wellPaired_def [symmetric]
  by (simp add: wellPaired_append)

lemma nl_isSpace: "isSpace nl"
  by (simp add: isSpace_def nl_def)










lemma entryBody_no_marker:
  assumes "wellFormedRecord r"
  shows "\<not> includesStr (entryBody r) (js ''### '')"
  using assms unfolding marker_eq
  by (simp add: entryBody_def titleLine_def descriptionLine_def npmLine_def licenseLine_def
      cacheLine_def warningNoteText_def wellFormedRecord_def singleLine_def glyph_def nl_def
      js_def includesStr_append_notin)

lemma entries_of_document:
  assumes "\<forall>r \<in> set rs. wellFormedRecord r" "\<not> includesStr generated (js ''### '')"
  shows "entriesOf (reportDocument generated rs) = entryTexts (map entryBody rs)"
proof -
  have m: "map formatRecord rs = map (\<lambda>body. js ''### '' @ body) (map entryBody rs)"
    by (simp add: formatRecord_entryBody)
  have "\<forall>body \<in> set (map entryBody rs). \<not> includesStr body (js ''### '')"
    using assms(1) by (simp add: entryBody_no_marker)
  then show ?thesis
    unfolding reportDocument_def m using assms(2) by (rule entries_of_report)
qed




lemma single_entry_read:
  assumes "wellFormedRecord r" "\<not> includesStr generated (js ''### '')" "wellPaired generated"
    and "parseEntry (entryBody r @ footer) = Some ci"
  shows "readCachedDependencies (Some (utf8File (reportDocument generated [r])))
           = (assignEntry emptyCache ci, [])"
proof -
  have wf: "\<forall>r' \<in> set [r]. wellFormedRecord r'"
    using assms(1) by simp
  have "tl (splitStr (js ''### '') (reportDocument generated [r])) = [entryBody r @ footer]"
    using entries_of_document [OF wf assms(2)] by (simp add: entriesOf_def)
  then show ?thesis
    unfolding utf8File_report [OF wf assms(3)]
    by (simp add: readCachedDependencies_def assms(4))
qed



lemma stamp_plain:
  "\<not> includesStr (js ''21. 11. 2024 0:25:02'') (js ''### '')"
  "\<not> includesStr (js ''20. 11. 2024 0:25:02'') (js ''### '')"
  by (simp_all add: js_def)



section \<open>The concrete run\<close>

lemma previous_document:
  "previousReport = reportDocument (js ''20. 11. 2024 0:25:02'')
                      [leftPadCached\<lparr>lastUpdated := js ''20. 11. 2024 0:25:02''\<rparr>]"
  by (simp add: previousReport_def reportDocument_def leftPadBlock_def formatRecord_def
      leftPadCached_def)

lemma previous_cache:
  "readCachedDependencies (Some previousReport) = (assignEntry emptyCache leftPadCached, [])"
proof -
  have wf: "wellFormedRecord (leftPadCached\<lparr>lastUpdated := js ''20. 11. 2024 0:25:02''\<rparr>)"
    by code_simp
  have p: "parseEntry (entryBody (leftPadCached\<lparr>lastUpdated := js ''20. 11. 2024 0:25:02''\<rparr>)
                       @ footer) = Some leftPadCached"
    by code_simp
  from single_entry_read [OF wf stamp_plain(2) wellPaired_js p] show ?thesis
    unfolding previous_document by (simp add: utf8File_report wf wellPaired_js)
qed

lemma run_with_previous:
  assumes "outputFile e = Some previousReport"
  shows "runTasks e pj =
           resolveAll e (assignEntry emptyCache leftPadCached) (sortedNames pj)
             (initialState\<lparr>errors := []\<rparr>)"
  by (simp add: runTasks_def assms previous_cache)

lemma example_manifest:
  "manifestFile exampleEnv = Manifest examplePackageJson" "writeOk exampleEnv"
  "generatedOn exampleEnv = js ''21. 11. 2024 0:25:02''"
  "outputFile exampleEnv = Some previousReport"
  by (simp_all add: exampleEnv_def)

lemma other_outputs:
  "outputFile constructorEnv = Some previousReport"
  "outputFile nullBodyEnv = Some previousReport"
  "outputFile licenseObjectEnv = Some previousReport"
  by (simp_all add: constructorEnv_def nullBodyEnv_def licenseObjectEnv_def exampleEnv_def)

lemma example_tasks:
  "runTasks exampleEnv examplePackageJson =
     ([Inr (formatRecord brokenRecord), Inr (formatRecord copyleftRecord),
       Inr (formatRecord leftPadCached)],
      \<lparr>requests = map js [''https://registry.npmjs.org/broken-pkg'',
                          ''https://registry.npmjs.org/copyleft-lib''],
       errors = [ErrorFetching (js ''broken-pkg'')],
       processedCount = 3, nonPermissiveCount = 2, cachedCount = 1, written = None\<rparr>)"
  unfolding run_with_previous [OF example_manifest(4)] by code_simp

lemma example_names:
  "sortedNames examplePackageJson = map js [''broken-pkg'', ''copyleft-lib'', ''left-pad'']"
  by code_simp

lemma example_run:
  "generateDependenciesList exampleEnv =
     (Fulfilled,
      \<lparr>requests = map js [''https://registry.npmjs.org/broken-pkg'',
                          ''https://registry.npmjs.org/copyleft-lib''],
       errors = [ErrorFetching (js ''broken-pkg'')],
       processedCount = 3, nonPermissiveCount = 2, cachedCount = 1,
       written = Some (reportDocument (js ''21. 11. 2024 0:25:02'')
                         [brokenRecord, copyleftRecord, leftPadCached])\<rparr>)"
  by (simp add: generateDependenciesList_def tryBlock_def example_manifest example_tasks
      example_names reportDocument_def brokenRecord_def copyleftRecord_def leftPadCached_def
      numeral_2_eq_2)

lemma previous_lookup:
  "lookupCached (fst (readCachedDependencies (Some previousReport))) (js ''left-pad'')
     = Rec leftPadCached"
  unfolding previous_cache fst_conv by code_simp

lemma constructor_run:
  "runTasks constructorEnv constructorJson = ([Inl Thrown], initialState)"
  unfolding run_with_previous [OF other_outputs(1)] by code_simp



lemma constructor_manifest: "manifestFile constructorEnv = Manifest constructorJson"
  by (simp add: constructorEnv_def)



section \<open>Reusing a cached entry\<close>

text \<open>
  Claim C3, on the code. In the run of the example the entry of \<open>left-pad\<close> is one
  day old: it is taken from the cache and no request is sent for it, but the block written
  for it carries the timestamp as the Cache Reader extracted it, \<open>20. 11. 2024 0\<close> after
  a space, and so is not the block of the previous report, whose timestamp is
  \<open>20. 11. 2024 0:25:02\<close>. Read again, the new block gives the timestamp with one more
  space in front.
\<close>

theorem cached_block_not_identical:
  "lookupCached (fst (readCachedDependencies (Some previousReport))) (js ''left-pad'')
     = Rec leftPadCached
   \<and> isCacheValid exampleEnv leftPadCached
   \<and> requests (snd (generateDependenciesList exampleEnv))
       = [registryUrl (js ''broken-pkg''), registryUrl (js ''copyleft-lib'')]
   \<and> fst (runTasks exampleEnv examplePackageJson) ! 2 = Inr (formatRecord leftPadCached)
   \<and> formatRecord leftPadCached
       = formatDependencyInfo (js ''left-pad'') (js ''https://www.npmjs.com/package/left-pad'')
           (js ''https://opensource.org/licenses/MIT'') (js ''String left pad'') True
           (js '' 20. 11. 2024 0'')
   \<and> formatRecord leftPadCached \<noteq> leftPadBlock
   \<and> parseEntry (drop 4 (formatRecord leftPadCached))
       = Some (leftPadCached\<lparr>lastUpdated := js ''  20. 11. 2024 0''\<rparr>)"
proof -
  have b: "isCacheValid exampleEnv leftPadCached"
    by code_simp
  have c: "requests (snd (generateDependenciesList exampleEnv))
             = [registryUrl (js ''broken-pkg''), registryUrl (js ''copyleft-lib'')]"
    by (simp add: example_run registryUrl_def js_def)
  have d: "fst (runTasks exampleEnv examplePackageJson) ! 2 = Inr (formatRecord leftPadCached)"
    by (simp add: example_tasks)
  have e: "formatRecord leftPadCached
       = formatDependencyInfo (js ''left-pad'') (js ''https://www.npmjs.com/package/left-pad'')
           (js ''https://opensource.org/licenses/MIT'') (js ''String left pad'') True
           (js '' 20. 11. 2024 0'')"
    by (simp add: formatRecord_def leftPadCached_def)
  have f: "formatRecord leftPadCached \<noteq> leftPadBlock"
    by (simp add: e leftPadBlock_def formatDependencyInfo_def entryText_def js_def)
  have g: "parseEntry (drop 4 (formatRecord leftPadCached))
             = Some (leftPadCached\<lparr>lastUpdated := js ''  20. 11. 2024 0''\<rparr>)"
    by code_simp
  from previous_lookup b c d e f g show ?thesis
    by blast
qed

section \<open>A dependency named as a property of every object\<close>

text \<open>
  Claim C6, on the code. In the run over the manifest whose only dependency is
  \<open>constructor\<close>, the lookup of that name in the cache object finds the function every
  object inherits; its \<open>lastUpdated\<close> is \<open>undefined\<close>, on which \<open>parseDate\<close> throws. The
  unit of work of the dependency throws, no request is sent, and the run logs an error and
  writes no report: the dependency produces no record.
\<close>

theorem constructor_gives_no_record:
  "sortedNames constructorJson = [js ''constructor'']
   \<and> lookupCached (fst (readCachedDependencies (outputFile constructorEnv))) (js ''constructor'')
       = Builtin
   \<and> lookupCached emptyCache (js ''constructor'') = Builtin
   \<and> cacheDecision constructorEnv Builtin = Throws
   \<and> fst (runTasks constructorEnv constructorJson) = [Inl Thrown]
   \<and> generateDependenciesList constructorEnv
       = (Fulfilled, initialState\<lparr>errors := [AnErrorOccurred]\<rparr>)
   \<and> written (snd (generateDependenciesList constructorEnv)) = None
   \<and> requests (snd (generateDependenciesList constructorEnv)) = []"
proof -
  have a: "sortedNames constructorJson = [js ''constructor'']"
    by code_simp
  have b: "lookupCached (fst (readCachedDependencies (outputFile constructorEnv)))
             (js ''constructor'') = Builtin"
    unfolding other_outputs previous_cache fst_conv by code_simp
  have c: "lookupCached emptyCache (js ''constructor'') = Builtin"
    by code_simp
  have d: "cacheDecision constructorEnv Builtin = Throws"
    by (simp add: cacheDecision_def)
  have e: "generateDependenciesList constructorEnv
             = (Fulfilled, initialState\<lparr>errors := [AnErrorOccurred]\<rparr>)"
    by (simp add: generateDependenciesList_def tryBlock_def constructor_manifest constructor_run
        initialState_def)
  show ?thesis
    by (simp add: a b c d e constructor_run initialState_def)
qed

section \<open>A registry answer that is no package document\<close>


section \<open>The summary of a report\<close>

lemma entryText_take: "take 4 (entryText dep npm lic d perm upd) = js ''### ''"
  by (simp add: entryText_def js_def)

lemma entryText_glyph:
  assumes "\<not> prefix glyph dep"
  shows "prefix glyph (drop 4 (entryText dep npm lic d perm upd) @ tail) \<longleftrightarrow> \<not> perm"
proof (cases perm)
  case True
  have "nl \<notin> set glyph"
    by (simp add: glyph_def nl_def)
  then have "prefix glyph (dep @ nl # rest) \<longleftrightarrow> prefix glyph dep" for rest
    by (rule prefix_append_notin)
  with True assms show ?thesis
    by (simp add: entryText_def js_def)
next
  case False
  then show ?thesis
    by (simp add: entryText_def js_def)
qed

lemma entryText_block:
  assumes "\<not> prefix glyph dep" "b = entryText dep npm lic d perm upd"
  shows "take 4 b = js ''### ''"
    and "prefix glyph (drop 4 b @ tail) \<longleftrightarrow> prefix glyph (drop 4 b)"
    and "(if perm then 0 else 1) = (if prefix glyph (drop 4 b) then 1 else (0::nat))"
  using entryText_glyph [OF assms(1), of npm lic d perm upd tail]
    entryText_glyph [OF assms(1), of npm lic d perm upd "[]"]
  by (simp_all add: assms(2) entryText_take)

lemma fetchBranch_block:
  assumes "fetchBranch e dep st = (Inr b, st')"
  shows "\<exists>npm lic d perm upd.
           b = entryText dep npm lic d perm upd
           \<and> nonPermissiveCount st' = nonPermissiveCount st + (if perm then 0 else 1)"
proof -
  obtain packageInfo st1 where f: "fetchPackageInfo e dep st = (packageInfo, st1)"
    by (cases "fetchPackageInfo e dep st")
  then have c: "nonPermissiveCount st1 = nonPermissiveCount st"
    using fetchPackageInfo_counters(1) [of e dep st] by simp
  from assms obtain encodedDep info licLink permissive where
    p: "encodeURIComponent dep = Some encodedDep" "packageInfo = Info info"
      "licenseParts e (license info) = Some (licLink, permissive)"
    and r: "(case pkgDescription info of
               NoDescription \<Rightarrow>
                 (Inr (formatDependencyInfo dep (js ''https://www.npmjs.com/package/'' @ encodedDep)
                         licLink [] permissive (localeStamp e dep)), countTask permissive st1)
             | DescriptionValue t \<Rightarrow>
                 (Inr (entryText dep (js ''https://www.npmjs.com/package/'' @ encodedDep) licLink t
                         permissive (localeStamp e dep)), countTask permissive st1)
             | DescriptionUnprintable \<Rightarrow> (Inl Thrown, countTask permissive st1)) = (Inr b, st')"
    unfolding fetchBranch_def f
    by (auto simp: Let_def split: option.splits package_info.splits)
  have n: "nonPermissiveCount (countTask permissive st1)
             = nonPermissiveCount st + (if permissive then 0 else 1)"
    by (simp add: countTask_fields c)
  show ?thesis
  proof (cases "pkgDescription info")
    case NoDescription
    with r have "b = entryText dep (js ''https://www.npmjs.com/package/'' @ encodedDep) licLink
                       (js ''No description available.'') permissive (localeStamp e dep)"
      and "st' = countTask permissive st1"
      by (simp_all add: formatDependencyInfo_def)
    with n show ?thesis by blast
  next
    case (DescriptionValue t)
    with r have "b = entryText dep (js ''https://www.npmjs.com/package/'' @ encodedDep) licLink
                       t permissive (localeStamp e dep)"
      and "st' = countTask permissive st1"
      by simp_all
    with n show ?thesis by blast
  next
    case DescriptionUnprintable
    with r show ?thesis by simp
  qed
qed

lemma resolveDependency_block:
  assumes "resolveDependency e c dep st = (Inr b, st')"
  shows "\<exists>npm lic d perm upd.
           b = entryText dep npm lic d perm upd
           \<and> nonPermissiveCount st' = nonPermissiveCount st + (if perm then 0 else 1)"
proof (cases "cacheDecision e (lookupCached c dep)")
  case (UseCache ci)
  with assms have "b = entryText dep (npmLink ci) (licenseLink ci)
                         (if description ci = [] then js ''No description available.''
                          else description ci) (isPermissive ci) (lastUpdated ci)"
    and "st' = countTask (isPermissive ci) (st\<lparr>cachedCount := cachedCount st + 1\<rparr>)"
    by (simp_all add: resolveDependency_def Let_def formatDependencyInfo_def)
  moreover have "nonPermissiveCount (countTask (isPermissive ci) (st\<lparr>cachedCount := cachedCount st + 1\<rparr>))
                   = nonPermissiveCount st + (if isPermissive ci then 0 else 1)"
    by (simp add: countTask_fields)
  ultimately show ?thesis by blast
next
  case Fetch
  with assms have "fetchBranch e dep st = (Inr b, st')"
    by (simp add: resolveDependency_def)
  then show ?thesis
    by (rule fetchBranch_block)
next
  case Throws
  with assms show ?thesis
    by (simp add: resolveDependency_def)
qed

lemma task_block:
  assumes "resolveDependency e c dep st = (Inr b, st')" "\<not> prefix glyph dep"
  shows "b = js ''### '' @ drop 4 b"
    and "prefix glyph (drop 4 b @ tail) \<longleftrightarrow> prefix glyph (drop 4 b)"
    and "nonPermissiveCount st' = nonPermissiveCount st + (if prefix glyph (drop 4 b) then 1 else 0)"
proof -
  from resolveDependency_block [OF assms(1)] obtain npm lic d perm upd where
    b: "b = entryText dep npm lic d perm upd"
    and n: "nonPermissiveCount st' = nonPermissiveCount st + (if perm then 0 else 1)"
    by blast
  note eb = entryText_block [OF assms(2) b]
  from eb(1) show "b = js ''### '' @ drop 4 b"
    by (metis append_take_drop_id)
  show "prefix glyph (drop 4 b @ tail) \<longleftrightarrow> prefix glyph (drop 4 b)"
    by (rule eb(2))
  show "nonPermissiveCount st' = nonPermissiveCount st + (if prefix glyph (drop 4 b) then 1 else 0)"
    unfolding n eb(3) ..
qed

lemma allBlocks_Some: "allBlocks rs = Some bs \<Longrightarrow> rs = map Inr bs"
proof (induction rs arbitrary: bs rule: allBlocks.induct)
  case 1
  then show ?case by simp
next
  case (2 err rs)
  then show ?case by simp
next
  case (3 b rs)
  then show ?case by auto
qed

lemma resolveAll_blocks:
  assumes "allBlocks (fst (resolveAll e c deps st)) = Some bs"
    "\<forall>dep \<in> set deps. \<not> prefix glyph dep"
  shows "(\<forall>b \<in> set bs. b = js ''### '' @ drop 4 b
            \<and> (\<forall>tail. prefix glyph (drop 4 b @ tail) \<longleftrightarrow> prefix glyph (drop 4 b)))
         \<and> nonPermissiveCount (snd (resolveAll e c deps st)) =
             nonPermissiveCount st + length (filter (\<lambda>b. prefix glyph (drop 4 b)) bs)"
  using assms
proof (induction deps arbitrary: st bs)
  case Nil
  then show ?case by simp
next
  case (Cons dep deps)
  define st1 where "st1 = snd (resolveDependency e c dep st)"
  from Cons(2) obtain b bs' where
    r: "fst (resolveDependency e c dep st) = Inr b"
    and bs': "allBlocks (fst (resolveAll e c deps st1)) = Some bs'"
    and bs: "bs = b # bs'"
    unfolding resolveAll_Cons st1_def
    by (cases "fst (resolveDependency e c dep st)") auto
  from r have t: "resolveDependency e c dep st = (Inr b, st1)"
    unfolding st1_def by (simp add: prod_eq_iff)
  from Cons(3) have g: "\<not> prefix glyph dep" "\<forall>dep \<in> set deps. \<not> prefix glyph dep"
    by simp_all
  note tb = task_block [OF t g(1)]
  note ih = Cons(1) [OF bs' g(2)]
  have "nonPermissiveCount (snd (resolveAll e c (dep # deps) st))
          = nonPermissiveCount (snd (resolveAll e c deps st1))"
    unfolding resolveAll_Cons st1_def ..
  also have "\<dots> = nonPermissiveCount st1 + length (filter (\<lambda>b. prefix glyph (drop 4 b)) bs')"
    using ih by simp
  also have "\<dots> = nonPermissiveCount st + length (filter (\<lambda>b. prefix glyph (drop 4 b)) bs)"
    unfolding bs using tb(3) by simp
  finally have "nonPermissiveCount (snd (resolveAll e c (dep # deps) st))
          = nonPermissiveCount st + length (filter (\<lambda>b. prefix glyph (drop 4 b)) bs)" .
  moreover have "\<forall>b \<in> set bs. b = js ''### '' @ drop 4 b
            \<and> (\<forall>tail. prefix glyph (drop 4 b @ tail) \<longleftrightarrow> prefix glyph (drop 4 b))"
    unfolding bs using tb(1,2) ih by simp
  ultimately show ?case by simp
qed

lemma entryTexts_glyph:
  assumes "\<forall>body \<in> set bodies. \<forall>tail. prefix glyph (body @ tail) \<longleftrightarrow> prefix glyph body"
  shows "length (filter (prefix glyph) (entryTexts bodies)) = length (filter (prefix glyph) bodies)"
  using assms
  by (induction bodies rule: entryTexts.induct) simp_all

lemma runTasks_written: "written (snd (runTasks e pj)) = None"
  by (simp add: runTasks_def split_def Let_def resolveAll_written initialState_def)

lemma generate_written_inv:
  assumes "manifestFile e = Manifest pj" "written (snd (generateDependenciesList e)) = Some text"
  shows "\<exists>bs. allBlocks (fst (runTasks e pj)) = Some bs
              \<and> text = header (generatedOn e) (length (sortedNames pj))
                         (nonPermissiveCount (snd (runTasks e pj)))
                       @ joinStr [nl, nl] bs @ footer"
proof (cases "allBlocks (fst (runTasks e pj))")
  case None
  with assms runTasks_written [of e pj] show ?thesis
    by (simp add: generateDependenciesList_def tryBlock_def split_def)
next
  case (Some bs)
  with assms runTasks_written [of e pj] show ?thesis
    by (cases "writeOk e")
      (simp_all add: generateDependenciesList_def tryBlock_def split_def Let_def)
qed

lemma report_counts:
  assumes "manifestFile e = Manifest pj"
    and "written (snd (generateDependenciesList e)) = Some text"
    and "\<forall>dep \<in> set (sortedNames pj). \<not> prefix glyph dep"
    and "\<not> includesStr (generatedOn e) (js ''### '')"
    and "\<forall>b. Inr b \<in> set (fst (runTasks e pj)) \<longrightarrow> \<not> includesStr (drop 4 b) (js ''### '')"
  shows "\<exists>rest. text = header (generatedOn e) (length (entriesOf text))
                          (length (filter (prefix glyph) (entriesOf text))) @ rest"
proof -
  from generate_written_inv [OF assms(1,2)] obtain bs where
    bs: "allBlocks (fst (runTasks e pj)) = Some bs"
    and doc: "text = header (generatedOn e) (length (sortedNames pj))
                        (nonPermissiveCount (snd (runTasks e pj)))
                      @ joinStr [nl, nl] bs @ footer"
    by blast
  define c where "c = fst (readCachedDependencies (outputFile e))"
  define st0 where "st0 = initialState\<lparr>errors := snd (readCachedDependencies (outputFile e))\<rparr>"
  have run: "runTasks e pj = resolveAll e c (sortedNames pj) st0"
    by (simp add: runTasks_def split_def Let_def c_def st0_def)
  from bs have rs: "fst (runTasks e pj) = map Inr bs"
    by (rule allBlocks_Some)
  have len: "length bs = length (sortedNames pj)"
    using rs resolveAll_length [of e c "sortedNames pj" st0] unfolding run
    by (metis length_map)
  note rb = resolveAll_blocks [OF bs [unfolded run] assms(3)]
  define bodies where "bodies = map (drop 4) bs"
  have rejoin: "map (\<lambda>body. js ''### '' @ body) bodies = bs"
    unfolding bodies_def using rb by (simp add: map_idI)
  have nomark: "\<forall>body \<in> set bodies. \<not> includesStr body (js ''### '')"
    unfolding bodies_def using assms(5) rs by auto
  have stable: "\<forall>body \<in> set bodies. \<forall>tail. prefix glyph (body @ tail) \<longleftrightarrow> prefix glyph body"
    unfolding bodies_def using rb by simp
  have count: "nonPermissiveCount (snd (runTasks e pj)) = length (filter (prefix glyph) bodies)"
    unfolding bodies_def run using rb
    by (simp add: st0_def initialState_def filter_map o_def)
  have entries: "entriesOf text = entryTexts bodies"
    unfolding doc using entries_of_report [OF nomark assms(4)] by (simp only: rejoin)
  have n: "length (entriesOf text) = length (sortedNames pj)"
    by (simp add: entries entryTexts_length bodies_def len)
  have k: "length (filter (prefix glyph) (entriesOf text)) = nonPermissiveCount (snd (runTasks e pj))"
    by (simp only: entries entryTexts_glyph [OF stable] count)
  show ?thesis
    unfolding n k using doc by blast
qed

text \<open>
  Claim C10, as the code has it. In a report that a run has written, where no dependency name
  starts with the warning glyph and the entry marker \<open>###\<close> stands in the generation stamp
  nowhere and in every block at its start only, the text begins with the title, the
  generation stamp and the summary, in which the total is the number of entries of the text
  (the pieces after each entry marker, as the Cache Reader cuts them) and the count of
  non-permissive licenses is the number of these entries that start with the warning glyph.
\<close>

theorem summary_counts_match_entries:
  assumes "manifestFile e = Manifest pj"
    and "written (snd (generateDependenciesList e)) = Some text"
    and "\<forall>dep \<in> set (sortedNames pj). \<not> prefix glyph dep"
    and "\<not> includesStr (generatedOn e) (js ''### '')"
    and "\<forall>b. Inr b \<in> set (fst (runTasks e pj)) \<longrightarrow> \<not> includesStr (drop 4 b) (js ''### '')"
  shows "\<exists>rest. text =
           js ''# Project Dependencies List'' @ [nl, nl]
           @ js ''> Generated on: '' @ generatedOn e @ [nl, nl]
           @ js ''## Summary'' @ [nl]
           @ js ''- **Total Dependencies:** '' @ showNat (length (entriesOf text)) @ [nl]
           @ js ''- **Non-Permissive Licenses:** ''
           @ showNat (length (filter (prefix glyph) (entriesOf text))) @ [nl, nl]
           @ rest"
proof -
  define n where "n = length (entriesOf text)"
  define k where "k = length (filter (prefix glyph) (entriesOf text))"
  from report_counts [OF assms] obtain rest where
    t: "text = header (generatedOn e) n k @ rest"
    unfolding n_def k_def by blast
  have "header (generatedOn e) n k @ rest =
           js ''# Project Dependencies List'' @ [nl, nl]
           @ js ''> Generated on: '' @ generatedOn e @ [nl, nl]
           @ js ''## Summary'' @ [nl]
           @ js ''- **Total Dependencies:** '' @ showNat n @ [nl]
           @ js ''- **Non-Permissive Licenses:** '' @ showNat k @ [nl, nl]
           @ (js ''## Description'' @ [nl]
              @ js ''This document contains a comprehensive list of all dependencies used in this codebase. For each dependency, you'' @ [0x27] @ js ''ll find:'' @ [nl]
              @ js ''- Its intended use'' @ [nl]
              @ js ''- Source link'' @ [nl]
              @ js ''- License information'' @ [nl]
              @ js ''- A link to the license definition'' @ [nl, nl]
              @ js ''## Note'' @ [nl]
              @ glyph @ js '' **Warning:** Dependencies marked with '' @ glyph
              @ js '' have potentially non-permissive licenses. Please review these carefully before use.''
              @ [nl, nl]
              @ js ''---'' @ [nl] @ rest)"
    by (simp add: header_def)
  with t have "text =
           js ''# Project Dependencies List'' @ [nl, nl]
           @ js ''> Generated on: '' @ generatedOn e @ [nl, nl]
           @ js ''## Summary'' @ [nl]
           @ js ''- **Total Dependencies:** '' @ showNat n @ [nl]
           @ js ''- **Non-Permissive Licenses:** '' @ showNat k @ [nl, nl]
           @ (js ''## Description'' @ [nl]
              @ js ''This document contains a comprehensive list of all dependencies used in this codebase. For each dependency, you'' @ [0x27] @ js ''ll find:'' @ [nl]
              @ js ''- Its intended use'' @ [nl]
              @ js ''- Source link'' @ [nl]
              @ js ''- License information'' @ [nl]
              @ js ''- A link to the license definition'' @ [nl, nl]
              @ js ''## Note'' @ [nl]
              @ glyph @ js '' **Warning:** Dependencies marked with '' @ glyph
              @ js '' have potentially non-permissive licenses. Please review these carefully before use.''
              @ [nl, nl]
              @ js ''---'' @ [nl] @ rest)"
    by (rule trans)
  then show ?thesis
    unfolding n_def k_def by (rule exI)
qed

lemma drop_marker: "drop 4 (js ''### '' @ x) = x"
  by (simp add: js_def)

lemma drop_formatRecord: "drop 4 (formatRecord r) = entryBody r"
  by (simp only: formatRecord_entryBody drop_marker)

lemma glyphName_tasks:
  "runTasks glyphNameEnv glyphNameJson =
     ([Inr (formatRecord glyphNameRecord)],
      \<lparr>requests = [js ''https://registry.npmjs.org/%E2%9A%A0%EF%B8%8F%20x''],
       errors = [ErrorReadingCache],
       processedCount = 1, nonPermissiveCount = 0, cachedCount = 0, written = None\<rparr>)"
  by code_simp

lemma glyphName_run:
  "generateDependenciesList glyphNameEnv =
     (Fulfilled,
      \<lparr>requests = [js ''https://registry.npmjs.org/%E2%9A%A0%EF%B8%8F%20x''],
       errors = [ErrorReadingCache],
       processedCount = 1, nonPermissiveCount = 0, cachedCount = 0,
       written = Some glyphNameReport\<rparr>)"
proof -
  have "manifestFile glyphNameEnv = Manifest glyphNameJson" "writeOk glyphNameEnv"
    "generatedOn glyphNameEnv = js ''21. 11. 2024 0:25:02''"
    by (simp_all add: glyphNameEnv_def exampleEnv_def)
  moreover have "sortedNames glyphNameJson = [glyphName]"
    by code_simp
  ultimately show ?thesis
    by (simp add: generateDependenciesList_def tryBlock_def glyphName_tasks glyphNameReport_def
        reportDocument_def glyphNameRecord_def)
qed

theorem summary_counts_match_entries_witness:
  "manifestFile exampleEnv = Manifest examplePackageJson
   \<and> written (snd (generateDependenciesList exampleEnv)) = Some exampleReport
   \<and> list_all (\<lambda>dep. \<not> prefix glyph dep) (sortedNames examplePackageJson)
   \<and> length (entriesOf exampleReport) = 3
   \<and> length (filter (prefix glyph) (entriesOf exampleReport)) = 2
   \<and> (\<exists>rest. exampleReport =
           js ''# Project Dependencies List'' @ [nl, nl]
           @ js ''> Generated on: '' @ js ''21. 11. 2024 0:25:02'' @ [nl, nl]
           @ js ''## Summary'' @ [nl]
           @ js ''- **Total Dependencies:** '' @ showNat 3 @ [nl]
           @ js ''- **Non-Permissive Licenses:** '' @ showNat 2 @ [nl, nl]
           @ rest)"
proof -
  have w: "written (snd (generateDependenciesList exampleEnv)) = Some exampleReport"
    by (simp add: example_run exampleReport_def)
  have g: "list_all (\<lambda>dep. \<not> prefix glyph dep) (sortedNames examplePackageJson)"
    by (simp add: example_names glyph_def js_def)
  have s: "\<not> includesStr (generatedOn exampleEnv) (js ''### '')"
    by (simp add: example_manifest stamp_plain)
  have wf: "\<forall>r \<in> set [brokenRecord, copyleftRecord, leftPadCached]. wellFormedRecord r"
    unfolding list_all_iff [symmetric] by code_simp
  have b: "\<forall>b. Inr b \<in> set (fst (runTasks exampleEnv examplePackageJson))
              \<longrightarrow> \<not> includesStr (drop 4 b) (js ''### '')"
    using wf by (auto simp: example_tasks drop_formatRecord entryBody_no_marker)
  have e: "entriesOf exampleReport
             = entryTexts (map entryBody [brokenRecord, copyleftRecord, leftPadCached])"
    unfolding exampleReport_def using wf stamp_plain(1) by (rule entries_of_document)
  have n: "length (entriesOf exampleReport) = 3"
    by (simp add: e)
  have k: "length (filter (prefix glyph) (entriesOf exampleReport)) = 2"
    unfolding e by code_simp
  note t = summary_counts_match_entries [OF example_manifest(1) w g [unfolded list_all_iff] s b,
      unfolded n k example_manifest(3)]
  from example_manifest(1) w g n k t show ?thesis
    by blast
qed

text \<open>
  Claim C10 as stated fails. In the run over one dependency whose name starts with the
  warning glyph and whose license is MIT, the report has one entry, whose title starts with
  the glyph, and the header gives 0 as the count of non-permissive licenses.
\<close>

theorem glyph_named_dependency_miscounted:
  "written (snd (generateDependenciesList glyphNameEnv)) = Some glyphNameReport
   \<and> nonPermissiveCount (snd (generateDependenciesList glyphNameEnv)) = 0
   \<and> prefix (js ''# Project Dependencies List'' @ [nl, nl]
             @ js ''> Generated on: 21. 11. 2024 0:25:02'' @ [nl, nl]
             @ js ''## Summary'' @ [nl]
             @ js ''- **Total Dependencies:** 1'' @ [nl]
             @ js ''- **Non-Permissive Licenses:** 0'' @ [nl, nl]) glyphNameReport
   \<and> map (prefix glyph) (entriesOf glyphNameReport) = [True]"
proof -
  have c: "prefix (js ''# Project Dependencies List'' @ [nl, nl]
             @ js ''> Generated on: 21. 11. 2024 0:25:02'' @ [nl, nl]
             @ js ''## Summary'' @ [nl]
             @ js ''- **Total Dependencies:** 1'' @ [nl]
             @ js ''- **Non-Permissive Licenses:** 0'' @ [nl, nl]) glyphNameReport"
    by code_simp
  have m: "\<forall>body \<in> set [entryBody glyphNameRecord]. \<not> includesStr body (js ''### '')"
    unfolding list_all_iff [symmetric] by code_simp
  have r: "glyphNameReport =
          header (js ''21. 11. 2024 0:25:02'') 1 0
          @ joinStr [nl, nl] (map (\<lambda>body. js ''### '' @ body) [entryBody glyphNameRecord])
          @ footer"
    by (simp add: glyphNameReport_def reportDocument_def formatRecord_entryBody
        glyphNameRecord_def)
  have "entriesOf glyphNameReport = entryTexts [entryBody glyphNameRecord]"
    unfolding r using m stamp_plain(1) by (rule entries_of_report)
  moreover have "map (prefix glyph) (entryTexts [entryBody glyphNameRecord]) = [True]"
    by code_simp
  ultimately have d: "map (prefix glyph) (entriesOf glyphNameReport) = [True]"
    by simp
  from c d show ?thesis
    by (simp add: glyphName_run)
qed

end
